theory Spec2Isabelle
  imports Main "HOL-Library.Word"
begin

unbundle bit_operations_syntax

section \<open>Kernel interfaces the driver calls\<close>

text \<open>
  The driver \<^verbatim>\<open>hw_registers.c\<close> is embedded as pure functions over an explicit
  state. Everything the driver calls in the kernel (allocation, sysfs, string
  conversion, formatting) is modelled here by what the call does to that state.
  A result \<open>None\<close> stands for undefined behaviour of the C program: a dereference
  or a \<^verbatim>\<open>kfree\<close> of a pointer whose object is no longer live. Log messages
  (\<^verbatim>\<open>dev_info\<close>, \<^verbatim>\<open>dev_err\<close>) and the field \<^verbatim>\<open>dev\<close> they use are left out.
\<close>

type_synonym addr = nat
type_synonym u32 = "32 word"

datatype errno = ENOENT | EIO | ENOMEM | EBUSY | EEXIST | ENODEV | EINVAL | ERANGE

fun neg_errno :: "errno \<Rightarrow> int" where
  "neg_errno ENOENT = - 2"
| "neg_errno EIO = - 5"
| "neg_errno ENOMEM = - 12"
| "neg_errno EBUSY = - 16"
| "neg_errno EEXIST = - 17"
| "neg_errno ENODEV = - 19"
| "neg_errno EINVAL = - 22"
| "neg_errno ERANGE = - 34"

text \<open>A C pointer that may be \<^verbatim>\<open>NULL\<close> or carry an error (\<^verbatim>\<open>ERR_PTR\<close>).\<close>

datatype ptr = NULL | PTR addr | ERR_PTR errno

fun IS_ERR :: "ptr \<Rightarrow> bool" where
  "IS_ERR (ERR_PTR e) = True"
| "IS_ERR p = False"

fun PTR_ERR :: "ptr \<Rightarrow> int" where
  "PTR_ERR (ERR_PTR e) = neg_errno e"
| "PTR_ERR (PTR a) = int a"
| "PTR_ERR NULL = 0"

subsection \<open>Formatting: \<^verbatim>\<open>%d\<close> and \<^verbatim>\<open>%08x\<close>\<close>

definition digit_char :: "nat \<Rightarrow> char" where
  "digit_char d = ''0123456789abcdef'' ! d"

text \<open>Digits of a number in a base between 2 and 16, most significant first.\<close>

function digits_of :: "nat \<Rightarrow> nat \<Rightarrow> string" where
  "digits_of b n =
     (if b < 2 \<or> n < b then [digit_char n]
      else digits_of b (n div b) @ [digit_char (n mod b)])"
  by pat_completeness auto
termination
  by (relation "measure snd") auto

declare digits_of.simps [simp del]

text \<open>\<^verbatim>\<open>%d\<close> of an \<^verbatim>\<open>int\<close>.\<close>

definition fmt_d :: "int \<Rightarrow> string" where
  "fmt_d n = (if n < 0 then CHR ''-'' # digits_of 10 (nat (- n)) else digits_of 10 (nat n))"

text \<open>\<^verbatim>\<open>%08x\<close> of a \<^verbatim>\<open>u32\<close>: lowercase hexadecimal, padded with zeros to width 8.\<close>

definition fmt_08x :: "u32 \<Rightarrow> string" where
  "fmt_08x w =
     (let ds = digits_of 16 (unat w) in replicate (8 - length ds) CHR ''0'' @ ds)"

text \<open>\<^verbatim>\<open>snprintf(buf, size, ...)\<close> keeps at most \<open>size - 1\<close> characters.\<close>

definition snprintf :: "nat \<Rightarrow> string \<Rightarrow> string" where
  "snprintf size_of_buf out = take (size_of_buf - 1) out"

subsection \<open>\<^verbatim>\<open>kstrtouint(s, 10, &res)\<close>\<close>

definition is_dec_digit :: "char \<Rightarrow> bool" where
  "is_dec_digit c = (c \<in> set ''0123456789'')"

definition dec_val :: "char \<Rightarrow> nat" where
  "dec_val c = of_char c - of_char CHR ''0''"

text \<open>
  The kernel's \<^verbatim>\<open>kstrtoull\<close> skips one leading plus sign, reads decimal digits,
  accepts one newline after them and nothing else; no digit at all is
  \<^verbatim>\<open>-EINVAL\<close>, a value beyond 64 bits is \<^verbatim>\<open>-ERANGE\<close>. \<^verbatim>\<open>kstrtouint\<close> then
  refuses a value that does not fit 32 bits with \<^verbatim>\<open>-ERANGE\<close>.
\<close>

definition kstrtoull :: "string \<Rightarrow> errno + nat" where
  "kstrtoull s =
     (let s1 = (case s of c # cs \<Rightarrow> if c = CHR ''+'' then cs else s | [] \<Rightarrow> s);
          ds = takeWhile is_dec_digit s1;
          rest = dropWhile is_dec_digit s1;
          v = foldl (\<lambda>acc c. 10 * acc + dec_val c) 0 ds
      in if 2 ^ 64 \<le> v then Inl ERANGE
         else if ds = [] then Inl EINVAL
         else if rest = [] \<or> rest = [CHR 0x0A] then Inr v
         else Inl EINVAL)"

definition kstrtouint :: "string \<Rightarrow> errno + nat" where
  "kstrtouint s =
     (case kstrtoull s of
        Inl e \<Rightarrow> Inl e
      | Inr v \<Rightarrow> if 2 ^ 32 \<le> v then Inl ERANGE else Inr v)"

section \<open>The driver's data\<close>

datatype show_fn = Module_bits_show | Module_present_show

text \<open>A \<^verbatim>\<open>struct device_attribute\<close> obtained from \<^verbatim>\<open>kzalloc\<close>: all fields zero at first.\<close>

record device_attribute =
  attr_name :: "string option"
  attr_mode :: nat
  attr_show :: "show_fn option"

definition zeroed_attribute :: device_attribute where
  "zeroed_attribute = \<lparr>attr_name = None, attr_mode = 0, attr_show = None\<rparr>"

text \<open>
  What a sysfs file refers to: the static \<^verbatim>\<open>dev_attr_module_bits\<close> or an
  allocated attribute.
\<close>

datatype attr_ref = Dev_attr_module_bits | Dyn_attr addr

record device =
  dev_addr :: addr
  dev_class :: addr
  dev_files :: "(string \<times> attr_ref) list"

record hw_module_detector =
  reg_base :: ptr
  module_bits :: u32
  hw_class :: ptr
  hw_device :: ptr

definition zeroed_detector :: hw_module_detector where
  "zeroed_detector = \<lparr>reg_base = NULL, module_bits = 0, hw_class = NULL, hw_device = NULL\<rparr>"

text \<open>
  The state the driver works on: its two globals \<^verbatim>\<open>hw_detector\<close> and
  \<^verbatim>\<open>module_present_attrs\<close>, the live attribute objects, the allocator's next
  address, the class and the device named \<^verbatim>\<open>hw_module\<close> in sysfs, the
  contents of the mapped registers, and the platform device's driver data.
\<close>

record state =
  hw_detector :: "hw_module_detector option"
  module_present_attrs :: "addr option list"
  attr_heap :: "addr \<Rightarrow> device_attribute option"
  next_addr :: addr
  sysfs_class :: "addr option"
  sysfs_device :: "device option"
  iomem :: "addr \<Rightarrow> u32"
  drvdata :: "hw_module_detector option"

text \<open>
  What the kernel answers during one probe: which allocations fail, what the
  resource lookup and the mapping return, and which sysfs calls fail for a
  reason of their own (a duplicate name is found by the model itself).
\<close>

record env =
  devm_kzalloc_fails :: bool
  resource_missing :: bool
  ioremap_ret :: "errno + addr"
  class_create_fails :: "errno option"
  device_create_fails :: "errno option"
  module_bits_file_fails :: "errno option"
  kzalloc_fails :: "nat \<Rightarrow> bool"
  kstrdup_fails :: "nat \<Rightarrow> bool"
  create_file_fails :: "nat \<Rightarrow> errno option"

subsection \<open>sysfs and allocation\<close>

definition kzalloc :: "state \<Rightarrow> addr \<times> state" where
  "kzalloc s =
     (next_addr s,
      s\<lparr>attr_heap := (attr_heap s)(next_addr s \<mapsto> zeroed_attribute),
        next_addr := Suc (next_addr s)\<rparr>)"

definition kfree :: "addr \<Rightarrow> state \<Rightarrow> state option" where
  "kfree a s =
     (case attr_heap s a of
        None \<Rightarrow> None
      | Some _ \<Rightarrow> Some (s\<lparr>attr_heap := (attr_heap s)(a := None)\<rparr>))"

text \<open>
  \<^verbatim>\<open>device_create_file(dev, attr)\<close> adds a file named after the attribute;
  a name already present is \<^verbatim>\<open>-EEXIST\<close>. With a \<^verbatim>\<open>NULL\<close> device it does
  nothing and returns 0.
\<close>

definition device_create_file ::
  "errno option \<Rightarrow> ptr \<Rightarrow> string \<Rightarrow> attr_ref \<Rightarrow> state \<Rightarrow> (int \<times> state) option" where
  "device_create_file forced dev name r s =
     (case dev of
        NULL \<Rightarrow> Some (0, s)
      | ERR_PTR e \<Rightarrow> None
      | PTR a \<Rightarrow>
          (case sysfs_device s of
             None \<Rightarrow> None
           | Some d \<Rightarrow>
               if dev_addr d \<noteq> a then None
               else (case forced of
                       Some e \<Rightarrow> Some (neg_errno e, s)
                     | None \<Rightarrow>
                         if name \<in> set (map fst (dev_files d)) then Some (neg_errno EEXIST, s)
                         else Some (0, s\<lparr>sysfs_device :=
                                           Some (d\<lparr>dev_files := dev_files d @ [(name, r)]\<rparr>)\<rparr>))))"

text \<open>
  \<^verbatim>\<open>device_remove_file(dev, attr)\<close> removes the file of that name, if any;
  the name is read from the attribute by the caller.
\<close>

definition device_remove_file :: "ptr \<Rightarrow> string option \<Rightarrow> state \<Rightarrow> state option" where
  "device_remove_file dev name s =
     (case dev of
        NULL \<Rightarrow> Some s
      | ERR_PTR e \<Rightarrow> None
      | PTR a \<Rightarrow>
          (case sysfs_device s of
             None \<Rightarrow> None
           | Some d \<Rightarrow>
               if dev_addr d \<noteq> a then None
               else Some (s\<lparr>sysfs_device :=
                             Some (d\<lparr>dev_files :=
                                       filter (\<lambda>f. Some (fst f) \<noteq> name) (dev_files d)\<rparr>)\<rparr>)))"

definition class_create :: "errno option \<Rightarrow> state \<Rightarrow> ptr \<times> state" where
  "class_create forced s =
     (case forced of
        Some e \<Rightarrow> (ERR_PTR e, s)
      | None \<Rightarrow>
          (case sysfs_class s of
             Some _ \<Rightarrow> (ERR_PTR EEXIST, s)
           | None \<Rightarrow>
               (PTR (next_addr s),
                s\<lparr>sysfs_class := Some (next_addr s), next_addr := Suc (next_addr s)\<rparr>)))"

definition device_create :: "errno option \<Rightarrow> ptr \<Rightarrow> state \<Rightarrow> (ptr \<times> state) option" where
  "device_create forced cls s =
     (case cls of
        PTR c \<Rightarrow>
          if sysfs_class s \<noteq> Some c then None
          else (case forced of
                  Some e \<Rightarrow> Some (ERR_PTR e, s)
                | None \<Rightarrow>
                    (case sysfs_device s of
                       Some _ \<Rightarrow> Some (ERR_PTR EEXIST, s)
                     | None \<Rightarrow>
                         Some (PTR (next_addr s),
                               s\<lparr>sysfs_device :=
                                    Some \<lparr>dev_addr = next_addr s, dev_class = c, dev_files = []\<rparr>,
                                 next_addr := Suc (next_addr s)\<rparr>)))
      | _ \<Rightarrow> Some (ERR_PTR ENODEV, s))"

text \<open>\<^verbatim>\<open>device_destroy(class, MKDEV(0, 0))\<close>: unregisters the device of that class, if there is one.\<close>

definition device_destroy :: "ptr \<Rightarrow> state \<Rightarrow> state option" where
  "device_destroy cls s =
     (case cls of
        NULL \<Rightarrow> Some s
      | ERR_PTR e \<Rightarrow> None
      | PTR c \<Rightarrow>
          if sysfs_class s \<noteq> Some c then None
          else (case sysfs_device s of
                  None \<Rightarrow> Some s
                | Some d \<Rightarrow> if dev_class d = c then Some (s\<lparr>sysfs_device := None\<rparr>) else Some s))"

text \<open>\<^verbatim>\<open>class_destroy\<close> ignores \<^verbatim>\<open>NULL\<close> and error pointers.\<close>

definition class_destroy :: "ptr \<Rightarrow> state \<Rightarrow> state option" where
  "class_destroy cls s =
     (case cls of
        PTR c \<Rightarrow> if sysfs_class s \<noteq> Some c then None else Some (s\<lparr>sysfs_class := None\<rparr>)
      | _ \<Rightarrow> Some s)"

section \<open>The driver\<close>

subsection \<open>Reading the register\<close>

definition readl :: "state \<Rightarrow> ptr \<Rightarrow> u32 option" where
  "readl s p = (case p of PTR a \<Rightarrow> Some (iomem s a) | _ \<Rightarrow> None)"

text \<open>
  The argument is the pointer \<^verbatim>\<open>detector\<close> (\<open>None\<close> for \<^verbatim>\<open>NULL\<close>), the inner result
  is the object it points to after the call.
\<close>

definition read_hw_module_reg ::
  "state \<Rightarrow> hw_module_detector option \<Rightarrow> hw_module_detector option option" where
  "read_hw_module_reg s detector =
     (case detector of
        None \<Rightarrow> Some None
      | Some d \<Rightarrow>
          if reg_base d = NULL then Some (Some d)
          else (case readl s (reg_base d) of
                  None \<Rightarrow> None
                | Some v \<Rightarrow> Some (Some (d\<lparr>module_bits := v\<rparr>))))"

subsection \<open>The exported queries\<close>

text \<open>\<^verbatim>\<open>BIT(nr)\<close> is \<^verbatim>\<open>1UL << nr\<close>, an \<^verbatim>\<open>unsigned long\<close> of 64 bits.\<close>

definition BIT :: "nat \<Rightarrow> 64 word" where
  "BIT nr = push_bit nr 1"

definition hw_module_present :: "state \<Rightarrow> u32 \<Rightarrow> bool" where
  "hw_module_present s module_bit =
     (if hw_detector s = None \<or> 32 \<le> module_bit then False
      else (ucast (module_bits (the (hw_detector s))) AND BIT (unat module_bit)) \<noteq> 0)"

definition hw_get_module_mask :: "state \<Rightarrow> u32" where
  "hw_get_module_mask s =
     (if hw_detector s = None then 0 else module_bits (the (hw_detector s)))"

subsection \<open>The attribute read handlers\<close>

text \<open>A handler returns its \<^verbatim>\<open>ssize_t\<close> and what it wrote to the buffer.\<close>

definition module_bits_show :: "state \<Rightarrow> int \<times> string" where
  "module_bits_show s =
     (if hw_detector s = None then (neg_errno EINVAL, [])
      else (let out = ''0x'' @ fmt_08x (module_bits (the (hw_detector s))) @ [CHR 0x0A]
            in (int (length out), out)))"

text \<open>
  \<^verbatim>\<open>attr->attr.name + 7\<close> is inside the name only when the name has at least
  7 characters.
\<close>

definition module_present_show :: "state \<Rightarrow> device_attribute \<Rightarrow> (int \<times> string) option" where
  "module_present_show s attr =
     (if hw_detector s = None then Some (neg_errno EINVAL, [])
      else (case attr_name attr of
              None \<Rightarrow> None
            | Some name \<Rightarrow>
                if length name < 7 then None
                else (case kstrtouint (drop 7 name) of
                        Inl e \<Rightarrow> Some (neg_errno EINVAL, [])
                      | Inr b \<Rightarrow>
                          if 32 \<le> b then Some (neg_errno EINVAL, [])
                          else (let out = fmt_d (if hw_module_present s (of_nat b) then 1 else 0)
                                            @ [CHR 0x0A]
                                in Some (int (length out), out)))))"

text \<open>
  A read of a published file by an observer: sysfs looks the file up by its
  name and calls the \<^verbatim>\<open>show\<close> handler of the attribute behind it;
  \<^verbatim>\<open>dev_attr_module_bits\<close> is declared with \<^verbatim>\<open>DEVICE_ATTR_RO\<close>, so its handler is
  \<open>module_bits_show\<close>. An attribute without a handler reads as \<^verbatim>\<open>-EIO\<close>.
\<close>

definition dev_attr_show :: "state \<Rightarrow> attr_ref \<Rightarrow> (int \<times> string) option" where
  "dev_attr_show s r =
     (case r of
        Dev_attr_module_bits \<Rightarrow> Some (module_bits_show s)
      | Dyn_attr a \<Rightarrow>
          (case attr_heap s a of
             None \<Rightarrow> None
           | Some attr \<Rightarrow>
               (case attr_show attr of
                  None \<Rightarrow> Some (neg_errno EIO, [])
                | Some Module_bits_show \<Rightarrow> Some (module_bits_show s)
                | Some Module_present_show \<Rightarrow> module_present_show s attr)))"

definition sysfs_read :: "state \<Rightarrow> string \<Rightarrow> (int \<times> string) option" where
  "sysfs_read s name =
     (case sysfs_device s of
        None \<Rightarrow> Some (neg_errno ENOENT, [])
      | Some d \<Rightarrow>
          (case map_of (dev_files d) name of
             None \<Rightarrow> Some (neg_errno ENOENT, [])
           | Some r \<Rightarrow> dev_attr_show s r))"

subsection \<open>Creating and removing the attribute files\<close>

definition attr_update ::
  "addr \<Rightarrow> (device_attribute \<Rightarrow> device_attribute) \<Rightarrow> state \<Rightarrow> state option" where
  "attr_update a f s =
     (case attr_heap s a of
        None \<Rightarrow> None
      | Some at \<Rightarrow> Some (s\<lparr>attr_heap := (attr_heap s)(a \<mapsto> f at)\<rparr>))"

definition set_slot :: "nat \<Rightarrow> addr option \<Rightarrow> state \<Rightarrow> state" where
  "set_slot i p s = s\<lparr>module_present_attrs := (module_present_attrs s)[i := p]\<rparr>"

text \<open>\<^verbatim>\<open>snprintf(name, sizeof(name), "module_%d", i)\<close> with \<^verbatim>\<open>char name[20]\<close>.\<close>

definition bit_attr_name :: "nat \<Rightarrow> string" where
  "bit_attr_name i = snprintf 20 (''module_'' @ fmt_d (int i))"

text \<open>
  One round of the creation loop. A result other than 0 is the jump to
  \<^verbatim>\<open>err_cleanup\<close> with that value in \<^verbatim>\<open>ret\<close>.
\<close>

definition create_one :: "env \<Rightarrow> ptr \<Rightarrow> nat \<Rightarrow> state \<Rightarrow> (int \<times> state) option" where
  "create_one env dev i s =
     (let name = bit_attr_name i in
      if kzalloc_fails env i then Some (neg_errno ENOMEM, set_slot i None s)
      else
        (let (a, s1) = kzalloc s; s2 = set_slot i (Some a) s1 in
         if kstrdup_fails env i then
           (case kfree a s2 of
              None \<Rightarrow> None
            | Some s3 \<Rightarrow> Some (neg_errno ENOMEM, set_slot i None s3))
         else
           (case attr_update a (\<lambda>at. at\<lparr>attr_name := Some name\<rparr>) s2 of
              None \<Rightarrow> None
            | Some s3 \<Rightarrow>
           (case attr_update a (\<lambda>at. at\<lparr>attr_mode := 292\<rparr>) s3 of
              None \<Rightarrow> None
            | Some s4 \<Rightarrow>
           (case attr_update a (\<lambda>at. at\<lparr>attr_show := Some Module_present_show\<rparr>) s4 of
              None \<Rightarrow> None
            | Some s5 \<Rightarrow>
           (case device_create_file (create_file_fails env i) dev name (Dyn_attr a) s5 of
              None \<Rightarrow> None
            | Some (ret, s6) \<Rightarrow>
                if ret \<noteq> 0 then
                  (case kfree a s6 of
                     None \<Rightarrow> None
                   | Some s7 \<Rightarrow> Some (ret, set_slot i None s7))
                else Some (0, s6)))))))"

fun create_loop :: "env \<Rightarrow> ptr \<Rightarrow> nat list \<Rightarrow> state \<Rightarrow> (int \<times> state) option" where
  "create_loop env dev [] s = Some (0, s)"
| "create_loop env dev (i # is) s =
     (case create_one env dev i s of
        None \<Rightarrow> None
      | Some (ret, s') \<Rightarrow> if ret \<noteq> 0 then Some (ret, s') else create_loop env dev is s')"

text \<open>A \<^verbatim>\<open>for\<close> loop whose body cannot leave it.\<close>

fun for_each :: "(nat \<Rightarrow> state \<Rightarrow> state option) \<Rightarrow> nat list \<Rightarrow> state \<Rightarrow> state option" where
  "for_each body [] s = Some s"
| "for_each body (i # is) s =
     (case body i s of None \<Rightarrow> None | Some s' \<Rightarrow> for_each body is s')"

text \<open>The body of the loop under \<^verbatim>\<open>err_cleanup\<close>: the slot keeps its pointer.\<close>

definition cleanup_one :: "ptr \<Rightarrow> nat \<Rightarrow> state \<Rightarrow> state option" where
  "cleanup_one dev i s =
     (case module_present_attrs s ! i of
        None \<Rightarrow> Some s
      | Some a \<Rightarrow>
          (case attr_heap s a of
             None \<Rightarrow> None
           | Some at \<Rightarrow>
               (case device_remove_file dev (attr_name at) s of
                  None \<Rightarrow> None
                | Some s1 \<Rightarrow> kfree a s1)))"

definition create_module_sysfs_files :: "env \<Rightarrow> ptr \<Rightarrow> state \<Rightarrow> (int \<times> state) option" where
  "create_module_sysfs_files env dev s =
     (case device_create_file (module_bits_file_fails env) dev ''module_bits''
             Dev_attr_module_bits s of
        None \<Rightarrow> None
      | Some (ret, s1) \<Rightarrow>
          if ret \<noteq> 0 then Some (ret, s1)
          else (case create_loop env dev [0..<32] s1 of
                  None \<Rightarrow> None
                | Some (ret, s2) \<Rightarrow>
                    if ret = 0 then Some (0, s2)
                    else (case for_each (cleanup_one dev) [0..<32] s2 of
                            None \<Rightarrow> None
                          | Some s3 \<Rightarrow>
                              (case device_remove_file dev (Some ''module_bits'') s3 of
                                 None \<Rightarrow> None
                               | Some s4 \<Rightarrow> Some (ret, s4)))))"

text \<open>The body of the loop of \<^verbatim>\<open>remove_module_sysfs_files\<close>: the slot is cleared.\<close>

definition remove_one :: "ptr \<Rightarrow> nat \<Rightarrow> state \<Rightarrow> state option" where
  "remove_one dev i s =
     (case module_present_attrs s ! i of
        None \<Rightarrow> Some s
      | Some a \<Rightarrow>
          (case attr_heap s a of
             None \<Rightarrow> None
           | Some at \<Rightarrow>
               (case device_remove_file dev (attr_name at) s of
                  None \<Rightarrow> None
                | Some s1 \<Rightarrow>
                    (case kfree a s1 of
                       None \<Rightarrow> None
                     | Some s2 \<Rightarrow> Some (set_slot i None s2)))))"

definition remove_module_sysfs_files :: "ptr \<Rightarrow> state \<Rightarrow> state option" where
  "remove_module_sysfs_files dev s =
     (case for_each (remove_one dev) [0..<32] s of
        None \<Rightarrow> None
      | Some s1 \<Rightarrow> device_remove_file dev (Some ''module_bits'') s1)"

subsection \<open>Probe and remove\<close>

definition hw_module_detector_probe :: "env \<Rightarrow> state \<Rightarrow> (int \<times> state) option" where
  "hw_module_detector_probe env s =
     (if devm_kzalloc_fails env then Some (neg_errno ENOMEM, s)
      else if resource_missing env then Some (neg_errno EINVAL, s)
      else
        (let d0 = zeroed_detector
                    \<lparr>reg_base := (case ioremap_ret env of Inl e \<Rightarrow> ERR_PTR e | Inr a \<Rightarrow> PTR a)\<rparr>
         in if IS_ERR (reg_base d0) then Some (PTR_ERR (reg_base d0), s)
            else
              (case read_hw_module_reg s (Some d0) of
                 None \<Rightarrow> None
               | Some None \<Rightarrow> None
               | Some (Some d1) \<Rightarrow>
                   (let (cls, s1) = class_create (class_create_fails env) s;
                        d2 = d1\<lparr>hw_class := cls\<rparr>
                    in if IS_ERR (hw_class d2) then Some (PTR_ERR (hw_class d2), s1)
                       else
                         (case device_create (device_create_fails env) (hw_class d2) s1 of
                            None \<Rightarrow> None
                          | Some (dv, s2) \<Rightarrow>
                              (let detector = d2\<lparr>hw_device := dv\<rparr>
                               in if IS_ERR (hw_device detector) then
                                    (case class_destroy (hw_class detector) s2 of
                                       None \<Rightarrow> None
                                     | Some s3 \<Rightarrow> Some (PTR_ERR (hw_device detector), s3))
                                  else
                                    (case create_module_sysfs_files env (hw_device detector) s2 of
                                       None \<Rightarrow> None
                                     | Some (ret, s3) \<Rightarrow>
                                         if ret \<noteq> 0 then
                                           (case device_destroy (hw_class detector) s3 of
                                              None \<Rightarrow> None
                                            | Some s4 \<Rightarrow>
                                                (case class_destroy (hw_class detector) s4 of
                                                   None \<Rightarrow> None
                                                 | Some s5 \<Rightarrow> Some (ret, s5)))
                                         else
                                           Some (0, s3\<lparr>hw_detector := Some detector,
                                                       drvdata := Some detector\<rparr>))))))))"

definition hw_module_detector_remove :: "state \<Rightarrow> (int \<times> state) option" where
  "hw_module_detector_remove s =
     (case drvdata s of
        None \<Rightarrow> Some (0, s\<lparr>hw_detector := None\<rparr>)
      | Some detector \<Rightarrow>
          (case remove_module_sysfs_files (hw_device detector) s of
             None \<Rightarrow> None
           | Some s1 \<Rightarrow>
               (case device_destroy (hw_class detector) s1 of
                  None \<Rightarrow> None
                | Some s2 \<Rightarrow>
                    (case class_destroy (hw_class detector) s2 of
                       None \<Rightarrow> None
                     | Some s3 \<Rightarrow> Some (0, s3\<lparr>hw_detector := None\<rparr>)))))"

section \<open>Predicates on states\<close>

text \<open>The device at address \<open>dev\<close> is registered.\<close>

definition dev_live :: "addr \<Rightarrow> state \<Rightarrow> bool" where
  "dev_live dev s \<longleftrightarrow> (\<exists>d. sysfs_device s = Some d \<and> dev_addr d = dev)"

text \<open>The files published on the device, none when there is no device.\<close>

definition published :: "state \<Rightarrow> (string \<times> attr_ref) list" where
  "published s = (case sysfs_device s of None \<Rightarrow> [] | Some d \<Rightarrow> dev_files d)"

text \<open>
  The slots with an index in \<open>I\<close> are usable: the array has its 32 entries,
  every pointer in such a slot is to a live attribute, and no two such slots hold
  the same pointer.
\<close>

definition slots_valid :: "nat set \<Rightarrow> state \<Rightarrow> bool" where
  "slots_valid I s \<longleftrightarrow>
     length (module_present_attrs s) = 32 \<and> (\<forall>i\<in>I. i < 32) \<and>
     (\<forall>i\<in>I. \<forall>a. module_present_attrs s ! i = Some a \<longrightarrow> attr_heap s a \<noteq> None) \<and>
     (\<forall>i\<in>I. \<forall>j\<in>I. \<forall>a. i \<noteq> j \<longrightarrow> module_present_attrs s ! i = Some a
        \<longrightarrow> module_present_attrs s ! j \<noteq> Some a)"

text \<open>
  Every published file is the aggregate one or carries the name of the
  attribute held by a slot with an index in \<open>I\<close>.
\<close>

definition files_covered :: "nat set \<Rightarrow> state \<Rightarrow> bool" where
  "files_covered I s \<longleftrightarrow>
     (\<forall>f\<in>set (published s).
        fst f = ''module_bits'' \<or>
        (\<exists>i\<in>I. \<exists>a at. module_present_attrs s ! i = Some a \<and> attr_heap s a = Some at
           \<and> attr_name at = Some (fst f)))"

text \<open>
  Relative to an address \<open>n0\<close>: the pointers in the slots of \<open>I\<close> were handed out
  at or after \<open>n0\<close>, and every live attribute at or after \<open>n0\<close> is held by such a slot.
\<close>

definition heap_tracked :: "addr \<Rightarrow> nat set \<Rightarrow> state \<Rightarrow> bool" where
  "heap_tracked n0 I s \<longleftrightarrow>
     n0 \<le> next_addr s \<and>
     (\<forall>i\<in>I. \<forall>a. module_present_attrs s ! i = Some a \<longrightarrow> n0 \<le> a \<and> a < next_addr s) \<and>
     (\<forall>a. n0 \<le> a \<longrightarrow> attr_heap s a \<noteq> None
        \<longrightarrow> (\<exists>i\<in>I. module_present_attrs s ! i = Some a))"

text \<open>
  The name under which the attribute held by slot \<open>i\<close> is published: the name
  \<^verbatim>\<open>device_remove_file\<close> reads through the slot's pointer.
\<close>

definition held_name :: "state \<Rightarrow> nat \<Rightarrow> string option" where
  "held_name s i =
     (case module_present_attrs s ! i of
        None \<Rightarrow> None
      | Some a \<Rightarrow> (case attr_heap s a of None \<Rightarrow> None | Some at \<Rightarrow> attr_name at))"

text \<open>The parts of the state that creating and removing attribute files leave alone.\<close>

definition same_frame :: "state \<Rightarrow> state \<Rightarrow> bool" where
  "same_frame s s' \<longleftrightarrow>
     hw_detector s' = hw_detector s \<and> sysfs_class s' = sysfs_class s \<and>
     iomem s' = iomem s \<and> drvdata s' = drvdata s \<and>
     map_option dev_addr (sysfs_device s') = map_option dev_addr (sysfs_device s) \<and>
     map_option dev_class (sysfs_device s') = map_option dev_class (sysfs_device s)"

text \<open>
  The state \<open>st\<close> reached from \<open>s0\<close> while the loop of
  \<open>remove_module_sysfs_files\<close> still has the slots of \<open>I\<close> to visit: those slots
  are as they were, the visited ones are cleared, exactly the attributes the
  visited slots held are freed, and exactly the files named after them are gone.
\<close>

definition removing :: "addr \<Rightarrow> state \<Rightarrow> nat set \<Rightarrow> state \<Rightarrow> bool" where
  "removing dev s0 I st \<longleftrightarrow>
     slots_valid I st \<and> dev_live dev st \<and> same_frame s0 st \<and> next_addr st = next_addr s0 \<and>
     (\<forall>i\<in>I. module_present_attrs st ! i = module_present_attrs s0 ! i) \<and>
     (\<forall>i<32. i \<notin> I \<longrightarrow> module_present_attrs st ! i = None) \<and>
     (\<forall>a. attr_heap st a =
        (if \<exists>i<32. i \<notin> I \<and> module_present_attrs s0 ! i = Some a then None
         else attr_heap s0 a)) \<and>
     published st =
       filter (\<lambda>f. \<forall>i<32. i \<notin> I \<longrightarrow> Some (fst f) \<noteq> held_name s0 i) (published s0)"

text \<open>
  A state in which no attribute is held: every slot is \<^verbatim>\<open>NULL\<close> and the allocator
  has not handed out an address at or above its next one.
\<close>

definition registry_empty :: "state \<Rightarrow> bool" where
  "registry_empty s \<longleftrightarrow>
     module_present_attrs s = replicate 32 None \<and>
     (\<forall>a. next_addr s \<le> a \<longrightarrow> attr_heap s a = None)"

section \<open>Reading hexadecimal text\<close>

text \<open>
  The value of a string of hexadecimal digits, used to say what the text
  written by \<open>fmt_08x\<close> denotes.
\<close>

definition hex_digit_value :: "char \<Rightarrow> nat" where
  "hex_digit_value c = (if c \<in> set ''0123456789'' then of_char c - 48 else of_char c - 87)"

definition hex_value :: "string \<Rightarrow> nat" where
  "hex_value cs = foldl (\<lambda>acc c. 16 * acc + hex_digit_value c) 0 cs"

section \<open>Concrete states for the examples\<close>

text \<open>
  The state after the module is loaded, with a register that reads
  \<^verbatim>\<open>0x0000002A\<close>, and a kernel in which every call succeeds.
\<close>

definition boot_state :: state where
  "boot_state =
     \<lparr>hw_detector = None, module_present_attrs = replicate 32 None,
      attr_heap = (\<lambda>a. None), next_addr = 1, sysfs_class = None, sysfs_device = None,
      iomem = (\<lambda>a. 0x2A), drvdata = None\<rparr>"

definition example_env :: env where
  "example_env =
     \<lparr>devm_kzalloc_fails = False, resource_missing = False, ioremap_ret = Inr 4096,
      class_create_fails = None, device_create_fails = None, module_bits_file_fails = None,
      kzalloc_fails = (\<lambda>i. False), kstrdup_fails = (\<lambda>i. False),
      create_file_fails = (\<lambda>i. None)\<rparr>"

text \<open>The same kernel, except that duplicating the name of attribute 3 fails.\<close>

definition failing_env :: env where
  "failing_env = example_env\<lparr>kstrdup_fails := (\<lambda>i. i = 3)\<rparr>"

text \<open>
  The state in which the probe calls \<open>create_module_sysfs_files\<close>: the class
  and the device exist, nothing is published yet.
\<close>

definition device_state :: state where
  "device_state =
     boot_state\<lparr>sysfs_class := Some 1,
                sysfs_device := Some \<lparr>dev_addr = 2, dev_class = 1, dev_files = []\<rparr>,
                next_addr := 3\<rparr>"


text \<open>A kernel in which the first allocation of an attribute fails.\<close>

definition failing_env_0 :: env where
  "failing_env_0 = example_env\<lparr>kzalloc_fails := (\<lambda>i. i = 0)\<rparr>"

text \<open>A state whose detector holds a mask with every bit set.\<close>

definition all_ones_state :: state where
  "all_ones_state =
     boot_state\<lparr>hw_detector := Some (zeroed_detector\<lparr>module_bits := 0xFFFFFFFF\<rparr>)\<rparr>"

section \<open>Basic facts\<close>

lemma neg_errno_nonzero [simp]: "neg_errno e \<noteq> 0"
  by (cases e) simp_all

lemma IS_ERR_iff: "IS_ERR p \<longleftrightarrow> (\<exists>e. p = ERR_PTR e)"
  by (cases p) simp_all

lemma present_bit:
  assumes "hw_detector s = Some d" and "module_bit < 32"
  shows "hw_module_present s module_bit = bit (module_bits d) (unat module_bit)"
proof -
  have n: "unat module_bit < 32"
    using assms(2) by (simp add: word_less_nat_alt)
  have "(ucast (module_bits d) AND BIT (unat module_bit) \<noteq> 0)
          = bit (ucast (module_bits d) :: 64 word) (unat module_bit)"
    unfolding BIT_def by (simp add: bit_iff_and_push_bit_not_eq_0)
  also have "\<dots> = bit (module_bits d) (unat module_bit)"
    using n by (simp add: bit_ucast_iff)
  finally show ?thesis
    using assms by (simp add: hw_module_present_def linorder_not_le [symmetric])
qed

text \<open>What a probe that returns 0 leaves in the singleton.\<close>

lemma probe_success:
  assumes "hw_module_detector_probe env s = Some (0, s')"
  shows "\<exists>base d. ioremap_ret env = Inr base \<and> hw_detector s' = Some d \<and> drvdata s' = Some d
           \<and> reg_base d = PTR base \<and> module_bits d = iomem s base"
  using assms
  unfolding hw_module_detector_probe_def read_hw_module_reg_def readl_def zeroed_detector_def
  by (auto simp: Let_def IS_ERR_iff
           split: if_splits option.splits sum.splits prod.splits ptr.splits)

lemma example_probe_returns:
  "\<exists>s'. hw_module_detector_probe example_env boot_state = Some (0, s')"
proof -
  have "map_option fst (hw_module_detector_probe example_env boot_state) = Some 0"
    by code_simp
  then show ?thesis by auto
qed

section \<open>Formatting and parsing\<close>

lemma lt16_cases: "d < (16::nat) \<Longrightarrow> d \<in> set [0,1,2,3,4,5,6,7,8,9,10,11,12,13,14,15]"
  by (simp; arith)

lemma hex_digit_value_digit_char: "d < 16 \<Longrightarrow> hex_digit_value (digit_char d) = d"
  using lt16_cases [of d]
  by (auto simp: hex_digit_value_def digit_char_def)

lemma digit_char_hex: "d < 16 \<Longrightarrow> digit_char d \<in> set ''0123456789abcdef''"
  using lt16_cases [of d] by (auto simp: digit_char_def)

lemma hex_value_snoc: "hex_value (cs @ [c]) = 16 * hex_value cs + hex_digit_value c"
  by (simp add: hex_value_def)

lemma hex_value_digits: "hex_value (digits_of 16 n) = n"
proof (induction "16::nat" n rule: digits_of.induct)
  case (1 n)
  show ?case
  proof (cases "n < 16")
    case True
    then show ?thesis
      by (subst digits_of.simps) (simp add: hex_value_def hex_digit_value_digit_char)
  next
    case False
    then have "hex_value (digits_of 16 (n div 16)) = n div 16"
      using 1 by simp
    with False show ?thesis
      by (subst digits_of.simps) (simp add: hex_value_snoc hex_digit_value_digit_char)
  qed
qed

lemma set_digits_hex: "set (digits_of 16 n) \<subseteq> set ''0123456789abcdef''"
proof (induction "16::nat" n rule: digits_of.induct)
  case (1 n)
  show ?case
  proof (cases "n < 16")
    case True
    then show ?thesis
      using digit_char_hex [of n] by (subst digits_of.simps) simp
  next
    case False
    then have "set (digits_of 16 (n div 16)) \<subseteq> set ''0123456789abcdef''"
      using 1 by simp
    with False show ?thesis
      using digit_char_hex [of "n mod 16"] by (subst digits_of.simps) simp
  qed
qed

lemma length_digits_hex: "n < 16 ^ Suc k \<Longrightarrow> length (digits_of 16 n) \<le> Suc k"
proof (induction k arbitrary: n)
  case 0
  then show ?case by (subst digits_of.simps) simp
next
  case (Suc k)
  show ?case
  proof (cases "n < 16")
    case True
    then show ?thesis by (subst digits_of.simps) simp
  next
    case False
    have "n div 16 < 16 ^ Suc k"
      using Suc.prems by (simp add: less_mult_imp_div_less mult.commute)
    then have "length (digits_of 16 (n div 16)) \<le> Suc k"
      by (rule Suc.IH)
    with False show ?thesis by (subst digits_of.simps) simp
  qed
qed

lemma hex_value_zeros: "hex_value (replicate k CHR ''0'' @ cs) = hex_value cs"
proof -
  have z: "hex_digit_value CHR ''0'' = 0"
    by (simp add: hex_digit_value_def)
  have "foldl (\<lambda>acc c. 16 * acc + hex_digit_value c) 0 (replicate k CHR ''0'') = 0"
    by (induction k) (simp_all add: z)
  then show ?thesis by (simp add: hex_value_def)
qed

lemma fmt_08x_spec:
  "length (fmt_08x w) = 8 \<and> set (fmt_08x w) \<subseteq> set ''0123456789abcdef''
   \<and> hex_value (fmt_08x w) = unat w"
proof -
  have "unat w < 16 ^ Suc 7"
    using unsigned_less [of w, where 'a = nat] by simp
  then have len: "length (digits_of 16 (unat w)) \<le> 8"
    using length_digits_hex [of "unat w" 7] by simp
  have 1: "length (fmt_08x w) = 8"
    using len by (simp add: fmt_08x_def Let_def)
  have 2: "set (fmt_08x w) \<subseteq> set ''0123456789abcdef''"
    using set_digits_hex [of "unat w"] by (auto simp: fmt_08x_def Let_def)
  have 3: "hex_value (fmt_08x w) = unat w"
    by (simp add: fmt_08x_def Let_def hex_value_zeros hex_value_digits)
  from 1 2 3 show ?thesis by blast
qed

lemma upt_32: "[0..<32] = [0,1,2,3,4,5,6,7,8,9,10,11,12,13,14,15,16,17,18,19,20,21,22,23,24,25,26,27,28,29,30,31::nat]"
  by code_simp

lemma bit_attr_names:
  "map bit_attr_name [0..<32] =
     [''module_0'', ''module_1'', ''module_2'', ''module_3'', ''module_4'', ''module_5'',
      ''module_6'', ''module_7'', ''module_8'', ''module_9'', ''module_10'', ''module_11'',
      ''module_12'', ''module_13'', ''module_14'', ''module_15'', ''module_16'', ''module_17'',
      ''module_18'', ''module_19'', ''module_20'', ''module_21'', ''module_22'', ''module_23'',
      ''module_24'', ''module_25'', ''module_26'', ''module_27'', ''module_28'', ''module_29'',
      ''module_30'', ''module_31'']"
  by (simp add: upt_32 bit_attr_name_def snprintf_def fmt_d_def digits_of.simps digit_char_def)

lemma bit_attr_name_parse_all:
  "\<forall>i\<in>set [0..<32]. 7 \<le> length (bit_attr_name i) \<and> kstrtouint (drop 7 (bit_attr_name i)) = Inr i"
  unfolding upt_32 list.set ball_simps
  by (simp add: bit_attr_name_def snprintf_def fmt_d_def digits_of.simps digit_char_def
        kstrtouint_def kstrtoull_def is_dec_digit_def dec_val_def)

lemma bit_attr_name_parse:
  assumes "i < 32"
  shows "7 \<le> length (bit_attr_name i)" and "kstrtouint (drop 7 (bit_attr_name i)) = Inr i"
  using assms bit_attr_name_parse_all by simp_all

section \<open>One round of the creation loop\<close>

lemma create_one_result:
  assumes "create_one env (PTR dev) i s = Some (ret, s')"
  shows "(ret \<noteq> 0 \<and> s' = set_slot i None s)
       \<or> (ret \<noteq> 0 \<and> s' = set_slot i None
             (s\<lparr>attr_heap := (attr_heap s)(next_addr s := None), next_addr := Suc (next_addr s)\<rparr>))
       \<or> (ret = 0 \<and> (\<exists>d. sysfs_device s = Some d \<and> dev_addr d = dev
             \<and> bit_attr_name i \<notin> set (map fst (dev_files d))
             \<and> s' = set_slot i (Some (next_addr s))
                   (s\<lparr>attr_heap := (attr_heap s)(next_addr s \<mapsto>
                        \<lparr>attr_name = Some (bit_attr_name i), attr_mode = 292,
                         attr_show = Some Module_present_show\<rparr>),
                      next_addr := Suc (next_addr s),
                      sysfs_device := Some (d\<lparr>dev_files := dev_files d
                          @ [(bit_attr_name i, Dyn_attr (next_addr s))]\<rparr>)\<rparr>)))"
  using assms
  unfolding create_one_def kzalloc_def kfree_def attr_update_def set_slot_def
    device_create_file_def zeroed_attribute_def
  by (auto simp: Let_def split: if_splits option.splits)

lemma create_one_total:
  assumes "dev_live dev s"
  shows "\<exists>ret s'. create_one env (PTR dev) i s = Some (ret, s') \<and> dev_live dev s'"
  using assms
  unfolding create_one_def kzalloc_def kfree_def attr_update_def set_slot_def
    device_create_file_def zeroed_attribute_def dev_live_def
  by (auto simp: Let_def split: if_splits option.splits)



lemma set_slot_simps [simp]:
  "attr_heap (set_slot i p s) = attr_heap s"
  "next_addr (set_slot i p s) = next_addr s"
  "sysfs_device (set_slot i p s) = sysfs_device s"
  "sysfs_class (set_slot i p s) = sysfs_class s"
  "hw_detector (set_slot i p s) = hw_detector s"
  "iomem (set_slot i p s) = iomem s"
  "drvdata (set_slot i p s) = drvdata s"
  "length (module_present_attrs (set_slot i p s)) = length (module_present_attrs s)"
  by (simp_all add: set_slot_def)

lemma slot_set_slot:
  "i < length (module_present_attrs s) \<Longrightarrow>
     module_present_attrs (set_slot i p s) ! j = (if j = i then p else module_present_attrs s ! j)"
  by (simp add: set_slot_def nth_list_update)

lemma published_set_slot [simp]: "published (set_slot i p s) = published s"
  by (simp add: published_def)

lemma slots_valid_clear:
  assumes "slots_valid I s" and "i < 32"
  shows "slots_valid I (set_slot i None s)"
  using assms unfolding slots_valid_def
  by (simp add: slot_set_slot)


lemma heap_tracked_clear:
  assumes "heap_tracked n0 I s" and "length (module_present_attrs s) = 32" and "i < 32"
    and "module_present_attrs s ! i = None"
  shows "heap_tracked n0 I (set_slot i None s)"
proof -
  have eq: "module_present_attrs (set_slot i None s) ! j = module_present_attrs s ! j" for j
    using assms(2-4) by (simp add: slot_set_slot)
  show ?thesis
    using assms(1) unfolding heap_tracked_def by (simp add: eq)
qed

lemma files_covered_clear:
  assumes "files_covered I s" and "length (module_present_attrs s) = 32" and "i < 32"
    and "module_present_attrs s ! i = None"
  shows "files_covered I (set_slot i None s)"
proof -
  have eq: "module_present_attrs (set_slot i None s) ! j = module_present_attrs s ! j" for j
    using assms(2-4) by (simp add: slot_set_slot)
  show ?thesis
    using assms(1) unfolding files_covered_def by (simp add: eq)
qed


lemma set_slot_same:
  assumes "length (module_present_attrs s) = 32" and "i < 32" and "module_present_attrs s ! i = p"
  shows "set_slot i p s = s"
  using assms by (simp add: set_slot_def list_update_same_conv)

text \<open>The state after an attribute was allocated and freed again.\<close>

lemma freed_slots_valid:
  assumes v: "slots_valid I s" and h: "heap_tracked n0 I s"
  shows "slots_valid I (s\<lparr>attr_heap := (attr_heap s)(next_addr s := None),
                          next_addr := Suc (next_addr s)\<rparr>)"
proof -
  have "a \<noteq> next_addr s" if "i \<in> I" "module_present_attrs s ! i = Some a" for i a
    using h that unfolding heap_tracked_def by fastforce
  then show ?thesis
    using v unfolding slots_valid_def by auto
qed

lemma freed_heap_tracked:
  assumes h: "heap_tracked n0 I s"
  shows "heap_tracked n0 I (s\<lparr>attr_heap := (attr_heap s)(next_addr s := None),
                          next_addr := Suc (next_addr s)\<rparr>)"
  using h unfolding heap_tracked_def by (auto simp: less_Suc_eq)

lemma freed_files_covered:
  assumes c: "files_covered I s" and h: "heap_tracked n0 I s"
  shows "files_covered I (s\<lparr>attr_heap := (attr_heap s)(next_addr s := None),
                          next_addr := Suc (next_addr s)\<rparr>)"
proof -
  have ne: "a \<noteq> next_addr s" if "i \<in> I" "module_present_attrs s ! i = Some a" for i a
    using h that unfolding heap_tracked_def by fastforce
  show ?thesis
    unfolding files_covered_def
  proof
    fix f assume "f \<in> set (published (s\<lparr>attr_heap := (attr_heap s)(next_addr s := None),
                          next_addr := Suc (next_addr s)\<rparr>))"
    then have "f \<in> set (published s)"
      by (simp add: published_def)
    then consider "fst f = ''module_bits''"
      | i a at where "i \<in> I" "module_present_attrs s ! i = Some a" "attr_heap s a = Some at"
          "attr_name at = Some (fst f)"
      using c unfolding files_covered_def by blast
    then show "fst f = ''module_bits'' \<or>
        (\<exists>i\<in>I. \<exists>a at. module_present_attrs (s\<lparr>attr_heap := (attr_heap s)(next_addr s := None),
                          next_addr := Suc (next_addr s)\<rparr>) ! i = Some a
           \<and> attr_heap (s\<lparr>attr_heap := (attr_heap s)(next_addr s := None),
                          next_addr := Suc (next_addr s)\<rparr>) a = Some at
           \<and> attr_name at = Some (fst f))"
    proof cases
      case 1
      then show ?thesis by simp
    next
      case 2
      then show ?thesis
        using ne [OF 2(1,2)] by auto
    qed
  qed
qed



lemma added_facts:
  assumes len: "length (module_present_attrs s) = 32" and i: "i < 32"
    and d: "sysfs_device s = Some d"
    and s': "s' = set_slot i (Some (next_addr s))
               (s\<lparr>attr_heap := (attr_heap s)(next_addr s \<mapsto> x),
                  next_addr := Suc (next_addr s),
                  sysfs_device := Some (d\<lparr>dev_files := dev_files d @ [(nm, Dyn_attr (next_addr s))]\<rparr>)\<rparr>)"
  shows "module_present_attrs s' ! j = (if j = i then Some (next_addr s) else module_present_attrs s ! j)"
    and "attr_heap s' a = (if a = next_addr s then Some x else attr_heap s a)"
    and "next_addr s' = Suc (next_addr s)"
    and "published s' = published s @ [(nm, Dyn_attr (next_addr s))]"
    and "length (module_present_attrs s') = 32"
  using len i d unfolding s' by (simp_all add: slot_set_slot published_def)



lemma added_slots_valid:
  assumes v: "slots_valid {..<32} s" and h: "heap_tracked n0 {..<32} s" and i: "i < 32"
    and d: "sysfs_device s = Some d"
    and s': "s' = set_slot i (Some (next_addr s))
               (s\<lparr>attr_heap := (attr_heap s)(next_addr s \<mapsto> x),
                  next_addr := Suc (next_addr s),
                  sysfs_device := Some (d\<lparr>dev_files := dev_files d @ [(nm, Dyn_attr (next_addr s))]\<rparr>)\<rparr>)"
  shows "slots_valid {..<32} s'"
proof -
  have len: "length (module_present_attrs s) = 32"
    using v by (simp add: slots_valid_def)
  note f = added_facts [OF len i d s']
  have below: "a < next_addr s" if "j < 32" "module_present_attrs s ! j = Some a" for j a
    using h that unfolding heap_tracked_def by fastforce
  have live0: "\<forall>j\<in>{..<32}. \<forall>a. module_present_attrs s ! j = Some a \<longrightarrow> attr_heap s a \<noteq> None"
    and dist0: "\<forall>j\<in>{..<32}. \<forall>k\<in>{..<32}. \<forall>a. j \<noteq> k \<longrightarrow> module_present_attrs s ! j = Some a
        \<longrightarrow> module_present_attrs s ! k \<noteq> Some a"
    using v unfolding slots_valid_def by blast+
  have live: "attr_heap s a \<noteq> None" if "j < 32" "module_present_attrs s ! j = Some a" for j a
    using live0 that by simp
  have dist: "module_present_attrs s ! k \<noteq> Some a"
    if "j < 32" "k < 32" "j \<noteq> k" "module_present_attrs s ! j = Some a" for j k a
    using dist0 that by simp
  show ?thesis
    unfolding slots_valid_def
  proof (intro conjI ballI allI impI)
    show "length (module_present_attrs s') = 32" by (rule f(5))
  next
    fix j assume "j \<in> {..<32::nat}" then show "j < 32" by simp
  next
    fix j a assume "j \<in> {..<32::nat}" "module_present_attrs s' ! j = Some a"
    then show "attr_heap s' a \<noteq> None"
      using live [of j a] by (auto simp: f split: if_splits)
  next
    fix j k a
    assume "j \<in> {..<32::nat}" "k \<in> {..<32::nat}" "j \<noteq> k" "module_present_attrs s' ! j = Some a"
    then show "module_present_attrs s' ! k \<noteq> Some a"
      using below [of j a] below [of k a] dist [of j k a]
      by (auto simp: f split: if_splits)
  qed
qed



lemma added_heap_tracked:
  assumes len: "length (module_present_attrs s) = 32" and h: "heap_tracked n0 {..<32} s"
    and i: "i < 32" and none: "module_present_attrs s ! i = None"
    and d: "sysfs_device s = Some d"
    and s': "s' = set_slot i (Some (next_addr s))
               (s\<lparr>attr_heap := (attr_heap s)(next_addr s \<mapsto> x),
                  next_addr := Suc (next_addr s),
                  sysfs_device := Some (d\<lparr>dev_files := dev_files d @ [(nm, Dyn_attr (next_addr s))]\<rparr>)\<rparr>)"
  shows "heap_tracked n0 {..<32} s'"
proof -
  note f = added_facts [OF len i d s']
  have n0: "n0 \<le> next_addr s"
    using h by (simp add: heap_tracked_def)
  have below: "n0 \<le> a \<and> a < next_addr s" if "j < 32" "module_present_attrs s ! j = Some a" for j a
    using h that unfolding heap_tracked_def by fastforce
  have held: "\<exists>j<32. module_present_attrs s ! j = Some a" if "n0 \<le> a" "attr_heap s a \<noteq> None" for a
    using h that unfolding heap_tracked_def by fastforce
  show ?thesis
    unfolding heap_tracked_def
  proof (intro conjI ballI allI impI)
    show "n0 \<le> next_addr s'" using n0 by (simp add: f)
  next
    fix j a assume "j \<in> {..<32::nat}" "module_present_attrs s' ! j = Some a"
    then show "n0 \<le> a" "a < next_addr s'"
      using below [of j a] n0 by (auto simp: f split: if_splits)
  next
    fix a assume a: "n0 \<le> a" "attr_heap s' a \<noteq> None"
    show "\<exists>j\<in>{..<32}. module_present_attrs s' ! j = Some a"
    proof (cases "a = next_addr s")
      case True
      then show ?thesis using i by (auto simp: f)
    next
      case False
      then obtain j where j: "j < 32" "module_present_attrs s ! j = Some a"
        using held [of a] a by (auto simp: f)
      then have "j \<noteq> i" using none by auto
      then show ?thesis using j by (auto simp: f)
    qed
  qed
qed



lemma added_files_covered:
  assumes len: "length (module_present_attrs s) = 32" and h: "heap_tracked n0 {..<32} s"
    and c: "files_covered {..<32} s"
    and i: "i < 32" and none: "module_present_attrs s ! i = None"
    and d: "sysfs_device s = Some d" and x: "attr_name x = Some nm"
    and s': "s' = set_slot i (Some (next_addr s))
               (s\<lparr>attr_heap := (attr_heap s)(next_addr s \<mapsto> x),
                  next_addr := Suc (next_addr s),
                  sysfs_device := Some (d\<lparr>dev_files := dev_files d @ [(nm, Dyn_attr (next_addr s))]\<rparr>)\<rparr>)"
  shows "files_covered {..<32} s'"
proof -
  note f = added_facts [OF len i d s']
  have below: "a < next_addr s" if "j < 32" "module_present_attrs s ! j = Some a" for j a
    using h that unfolding heap_tracked_def by fastforce
  show ?thesis
    unfolding files_covered_def
  proof
    fix fl assume "fl \<in> set (published s')"
    then consider "fl \<in> set (published s)" | "fl = (nm, Dyn_attr (next_addr s))"
      by (auto simp: f)
    then show "fst fl = ''module_bits'' \<or>
        (\<exists>j\<in>{..<32}. \<exists>a at. module_present_attrs s' ! j = Some a \<and> attr_heap s' a = Some at
           \<and> attr_name at = Some (fst fl))"
    proof cases
      case 1
      then consider "fst fl = ''module_bits''"
        | j a at where "j < 32" "module_present_attrs s ! j = Some a" "attr_heap s a = Some at"
            "attr_name at = Some (fst fl)"
        using c unfolding files_covered_def by fastforce
      then show ?thesis
      proof cases
        case 1
        then show ?thesis by simp
      next
        case 2
        have "j \<noteq> i" using 2(2) none by auto
        moreover have "a \<noteq> next_addr s" using below [OF 2(1,2)] by simp
        ultimately show ?thesis
          using 2 by (intro disjI2 bexI [of _ j]) (auto simp: f)
      qed
    next
      case 2
      then show ?thesis
        using i x by (intro disjI2 bexI [of _ i]) (auto simp: f)
    qed
  qed
qed

section \<open>The creation loop\<close>

lemma create_one_step:
  assumes r: "create_one env (PTR dev) i s = Some (ret, s')"
    and i: "i < 32" "module_present_attrs s ! i = None"
    and v: "slots_valid {..<32} s" and h: "heap_tracked n0 {..<32} s"
    and c: "files_covered {..<32} s"
  shows "slots_valid {..<32} s'" and "heap_tracked n0 {..<32} s'" and "files_covered {..<32} s'"
    and "same_frame s s'"
    and "\<And>j. j \<noteq> i \<Longrightarrow> module_present_attrs s' ! j = module_present_attrs s ! j"
    and "\<And>a. a < next_addr s \<Longrightarrow> attr_heap s' a = attr_heap s a"
    and "next_addr s \<le> next_addr s'"
    and "set (published s) \<subseteq> set (published s')"
    and "distinct (map fst (published s)) \<Longrightarrow> distinct (map fst (published s'))"
    and "ret \<noteq> 0 \<Longrightarrow> module_present_attrs s' ! i = None"
    and "ret = 0 \<Longrightarrow> module_present_attrs s' ! i = Some (next_addr s)
           \<and> attr_heap s' (next_addr s) =
               Some \<lparr>attr_name = Some (bit_attr_name i), attr_mode = 292,
                     attr_show = Some Module_present_show\<rparr>
           \<and> (bit_attr_name i, Dyn_attr (next_addr s)) \<in> set (published s')"
proof -
  have len: "length (module_present_attrs s) = 32"
    using v by (simp add: slots_valid_def)
  have same: "set_slot i None s = s"
    using set_slot_same [OF len i(1) i(2)] .
  let ?freed = "s\<lparr>attr_heap := (attr_heap s)(next_addr s := None), next_addr := Suc (next_addr s)\<rparr>"
  have same_freed: "set_slot i None ?freed = ?freed"
    by (rule set_slot_same) (use len i in simp_all)
  from create_one_result [OF r]
  consider (alloc_failed) "ret \<noteq> 0" "s' = s"
    | (freed) "ret \<noteq> 0" "s' = ?freed"
    | (added) d where "ret = 0" "sysfs_device s = Some d" "dev_addr d = dev"
        "bit_attr_name i \<notin> set (map fst (dev_files d))"
        "s' = set_slot i (Some (next_addr s))
                   (s\<lparr>attr_heap := (attr_heap s)(next_addr s \<mapsto>
                        \<lparr>attr_name = Some (bit_attr_name i), attr_mode = 292,
                         attr_show = Some Module_present_show\<rparr>),
                      next_addr := Suc (next_addr s),
                      sysfs_device := Some (d\<lparr>dev_files := dev_files d
                          @ [(bit_attr_name i, Dyn_attr (next_addr s))]\<rparr>)\<rparr>)"
    unfolding same same_freed by blast
  then have all: "slots_valid {..<32} s' \<and> heap_tracked n0 {..<32} s' \<and> files_covered {..<32} s'
    \<and> same_frame s s'
    \<and> (\<forall>j. j \<noteq> i \<longrightarrow> module_present_attrs s' ! j = module_present_attrs s ! j)
    \<and> (\<forall>a. a < next_addr s \<longrightarrow> attr_heap s' a = attr_heap s a)
    \<and> next_addr s \<le> next_addr s'
    \<and> set (published s) \<subseteq> set (published s')
    \<and> (distinct (map fst (published s)) \<longrightarrow> distinct (map fst (published s')))
    \<and> (ret \<noteq> 0 \<longrightarrow> module_present_attrs s' ! i = None)
    \<and> (ret = 0 \<longrightarrow> module_present_attrs s' ! i = Some (next_addr s)
           \<and> attr_heap s' (next_addr s) =
               Some \<lparr>attr_name = Some (bit_attr_name i), attr_mode = 292,
                     attr_show = Some Module_present_show\<rparr>
           \<and> (bit_attr_name i, Dyn_attr (next_addr s)) \<in> set (published s'))"
  proof cases
    case alloc_failed
    then show ?thesis
      using v h c i by (simp add: same_frame_def)
  next
    case freed
    then show ?thesis
      using freed_slots_valid [OF v h] freed_heap_tracked [OF h] freed_files_covered [OF c h] i
      by (simp add: same_frame_def published_def)
  next
    case added
    note f = added_facts [OF len i(1) added(2) added(5)]
    have "slots_valid {..<32} s'"
      by (rule added_slots_valid [OF v h i(1) added(2) added(5)])
    moreover have "heap_tracked n0 {..<32} s'"
      by (rule added_heap_tracked [OF len h i(1) i(2) added(2) added(5)])
    moreover have "files_covered {..<32} s'"
      by (rule added_files_covered [OF len h c i(1) i(2) added(2) _ added(5)]) simp
    moreover have "same_frame s s'"
      unfolding added(5) using added(2) by (simp add: same_frame_def)
    moreover have "distinct (map fst (published s)) \<longrightarrow> distinct (map fst (published s'))"
    proof -
      have "published s = dev_files d"
        using added(2) by (simp add: published_def)
      then show ?thesis
        using added(4) by (simp add: f)
    qed
    ultimately show ?thesis
      using added(1) by (auto simp: f)
  qed
  from all show "slots_valid {..<32} s'" and "heap_tracked n0 {..<32} s'"
    and "files_covered {..<32} s'" and "same_frame s s'"
    and "next_addr s \<le> next_addr s'"
    and "set (published s) \<subseteq> set (published s')"
    by blast+
  from all show "\<And>j. j \<noteq> i \<Longrightarrow> module_present_attrs s' ! j = module_present_attrs s ! j"
    and "\<And>a. a < next_addr s \<Longrightarrow> attr_heap s' a = attr_heap s a"
    and "distinct (map fst (published s)) \<Longrightarrow> distinct (map fst (published s'))"
    and "ret \<noteq> 0 \<Longrightarrow> module_present_attrs s' ! i = None"
    and "ret = 0 \<Longrightarrow> module_present_attrs s' ! i = Some (next_addr s)
           \<and> attr_heap s' (next_addr s) =
               Some \<lparr>attr_name = Some (bit_attr_name i), attr_mode = 292,
                     attr_show = Some Module_present_show\<rparr>
           \<and> (bit_attr_name i, Dyn_attr (next_addr s)) \<in> set (published s')"
    by blast+
qed


lemma same_frame_refl [simp]: "same_frame s s"
  by (simp add: same_frame_def)

lemma same_frame_trans: "same_frame s s1 \<Longrightarrow> same_frame s1 s2 \<Longrightarrow> same_frame s s2"
  by (simp add: same_frame_def)

lemma create_loop_total:
  assumes "dev_live dev s"
  shows "\<exists>ret s'. create_loop env (PTR dev) is s = Some (ret, s') \<and> dev_live dev s'"
  using assms
proof (induction "is" arbitrary: s)
  case Nil
  then show ?case by simp
next
  case (Cons i "is")
  from create_one_total [OF Cons.prems]
  obtain r1 s1 where s1: "create_one env (PTR dev) i s = Some (r1, s1)" "dev_live dev s1"
    by blast
  show ?case
  proof (cases "r1 = 0")
    case True
    then show ?thesis
      using Cons.IH [OF s1(2)] s1(1) by simp
  next
    case False
    then show ?thesis
      using s1 by simp
  qed
qed

lemma create_loop_inv:
  assumes "create_loop env (PTR dev) is s = Some (ret, s')"
    and "distinct is" and "\<forall>i\<in>set is. i < 32 \<and> module_present_attrs s ! i = None"
    and "slots_valid {..<32} s" and "heap_tracked n0 {..<32} s" and "files_covered {..<32} s"
  shows "slots_valid {..<32} s' \<and> heap_tracked n0 {..<32} s' \<and> files_covered {..<32} s'
    \<and> same_frame s s'
    \<and> (\<forall>j. j \<notin> set is \<longrightarrow> module_present_attrs s' ! j = module_present_attrs s ! j)
    \<and> (\<forall>a. a < next_addr s \<longrightarrow> attr_heap s' a = attr_heap s a)
    \<and> next_addr s \<le> next_addr s'
    \<and> set (published s) \<subseteq> set (published s')
    \<and> (distinct (map fst (published s)) \<longrightarrow> distinct (map fst (published s')))
    \<and> (ret = 0 \<longrightarrow> (\<forall>i\<in>set is. \<exists>a. module_present_attrs s' ! i = Some a
           \<and> attr_heap s' a =
               Some \<lparr>attr_name = Some (bit_attr_name i), attr_mode = 292,
                     attr_show = Some Module_present_show\<rparr>
           \<and> (bit_attr_name i, Dyn_attr a) \<in> set (published s')))"
  using assms
proof (induction "is" arbitrary: s)
  case Nil
  then show ?case by simp
next
  case (Cons i "is")
  from Cons.prems(1) obtain r1 s1 where s1: "create_one env (PTR dev) i s = Some (r1, s1)"
    by (auto split: option.splits)
  have i: "i < 32" "module_present_attrs s ! i = None"
    using Cons.prems(3) by simp_all
  note st = create_one_step [OF s1 i Cons.prems(4,5,6)]
  show ?case
  proof (cases "r1 = 0")
    case False
    then have "ret = r1" "s' = s1"
      using Cons.prems(1) s1 by simp_all
    then show ?thesis
      using st False by auto
  next
    case True
    then have loop: "create_loop env (PTR dev) is s1 = Some (ret, s')"
      using Cons.prems(1) s1 by simp
    have d: "distinct is" "i \<notin> set is"
      using Cons.prems(2) by simp_all
    have none: "\<forall>j\<in>set is. j < 32 \<and> module_present_attrs s1 ! j = None"
    proof
      fix j assume j: "j \<in> set is"
      then have "j \<noteq> i" using d(2) by blast
      then have "module_present_attrs s1 ! j = module_present_attrs s ! j"
        by (rule st(5))
      then show "j < 32 \<and> module_present_attrs s1 ! j = None"
        using Cons.prems(3) j by simp
    qed
    note ih = Cons.IH [OF loop d(1) none st(1,2,3)]
    have new: "module_present_attrs s1 ! i = Some (next_addr s)"
      "attr_heap s1 (next_addr s) = Some \<lparr>attr_name = Some (bit_attr_name i), attr_mode = 292,
                     attr_show = Some Module_present_show\<rparr>"
      "(bit_attr_name i, Dyn_attr (next_addr s)) \<in> set (published s1)"
      using st(11) True by simp_all
    have lt: "next_addr s < next_addr s1"
      using st(1,2) new(1) i(1) unfolding heap_tracked_def by auto
    have keep: "module_present_attrs s' ! i = Some (next_addr s)"
      "attr_heap s' (next_addr s) = Some \<lparr>attr_name = Some (bit_attr_name i), attr_mode = 292,
                     attr_show = Some Module_present_show\<rparr>"
      "(bit_attr_name i, Dyn_attr (next_addr s)) \<in> set (published s')"
      using ih d(2) new lt by auto
    have 1: "same_frame s s'"
      using same_frame_trans [OF st(4)] ih by blast
    have 2: "\<forall>j. j \<notin> set (i # is) \<longrightarrow> module_present_attrs s' ! j = module_present_attrs s ! j"
      using ih st(5) by simp
    have 3: "\<forall>a. a < next_addr s \<longrightarrow> attr_heap s' a = attr_heap s a"
      using ih st(6) lt by simp
    have 4: "next_addr s \<le> next_addr s'"
      using ih lt by simp
    have 5: "set (published s) \<subseteq> set (published s')"
      using ih st(8) by blast
    have 6: "distinct (map fst (published s)) \<longrightarrow> distinct (map fst (published s'))"
      using ih st(9) by blast
    have 7: "ret = 0 \<longrightarrow> (\<forall>k\<in>set (i # is). \<exists>a. module_present_attrs s' ! k = Some a
           \<and> attr_heap s' a =
               Some \<lparr>attr_name = Some (bit_attr_name k), attr_mode = 292,
                     attr_show = Some Module_present_show\<rparr>
           \<and> (bit_attr_name k, Dyn_attr a) \<in> set (published s'))"
      using ih keep by simp
    from ih 1 2 3 4 5 6 7 show ?thesis by blast
  qed
qed

section \<open>The loop under \<^verbatim>\<open>err_cleanup\<close>\<close>

lemma for_each_induct:
  assumes step: "\<And>i I s. Inv I s \<Longrightarrow> i \<in> I \<Longrightarrow> \<exists>s'. body i s = Some s' \<and> Inv (I - {i}) s' \<and> R s s'"
    and refl: "\<And>s. R s s"
    and trans: "\<And>s s1 s2. R s s1 \<Longrightarrow> R s1 s2 \<Longrightarrow> R s s2"
    and inv: "Inv I s" and sub: "set is \<subseteq> I" and dist: "distinct is"
  shows "\<exists>s'. for_each body is s = Some s' \<and> Inv (I - set is) s' \<and> R s s'"
  using inv sub dist
proof (induction "is" arbitrary: s I)
  case Nil
  then show ?case using refl by simp
next
  case (Cons i "is")
  have "i \<in> I" using Cons.prems(2) by simp
  from step [OF Cons.prems(1) this]
  obtain s1 where s1: "body i s = Some s1" "Inv (I - {i}) s1" "R s s1"
    by blast
  have "set is \<subseteq> I - {i}" "distinct is"
    using Cons.prems(2,3) by auto
  from Cons.IH [OF s1(2) this]
  obtain s' where s': "for_each body is s1 = Some s'" "Inv (I - {i} - set is) s'" "R s1 s'"
    by blast
  have "I - {i} - set is = I - set (i # is)"
    by auto
  then show ?case
    using s1 s' trans by auto
qed

lemma cleanup_one_result:
  assumes v: "slots_valid I s" and i: "i \<in> I"
    and d: "sysfs_device s = Some d" "dev_addr d = dev"
  shows "(module_present_attrs s ! i = None \<and> cleanup_one (PTR dev) i s = Some s)
       \<or> (\<exists>a at. module_present_attrs s ! i = Some a \<and> attr_heap s a = Some at
            \<and> cleanup_one (PTR dev) i s =
                Some (s\<lparr>sysfs_device := Some (d\<lparr>dev_files :=
                            filter (\<lambda>f. Some (fst f) \<noteq> attr_name at) (dev_files d)\<rparr>),
                        attr_heap := (attr_heap s)(a := None)\<rparr>))"
proof (cases "module_present_attrs s ! i")
  case None
  then show ?thesis by (simp add: cleanup_one_def)
next
  case (Some a)
  have "attr_heap s a \<noteq> None"
    using v i Some unfolding slots_valid_def by blast
  then obtain at where "attr_heap s a = Some at" by blast
  then show ?thesis
    using Some d by (simp add: cleanup_one_def device_remove_file_def kfree_def)
qed

text \<open>The state after the attribute in slot \<open>i\<close> was unpublished and freed.\<close>

lemma removed_slots_valid:
  assumes v: "slots_valid I s" and i: "i \<in> I" and a: "module_present_attrs s ! i = Some a"
  shows "slots_valid (I - {i}) (s\<lparr>sysfs_device := dv, attr_heap := (attr_heap s)(a := None)\<rparr>)"
proof -
  have live0: "\<forall>j\<in>I. \<forall>b. module_present_attrs s ! j = Some b \<longrightarrow> attr_heap s b \<noteq> None"
    and dist0: "\<forall>j\<in>I. \<forall>k\<in>I. \<forall>b. j \<noteq> k \<longrightarrow> module_present_attrs s ! j = Some b
        \<longrightarrow> module_present_attrs s ! k \<noteq> Some b"
    and len: "length (module_present_attrs s) = 32" and bound: "\<forall>j\<in>I. j < 32"
    using v unfolding slots_valid_def by blast+
  have ne: "b \<noteq> a" if "j \<in> I - {i}" "module_present_attrs s ! j = Some b" for j b
    using dist0 i a that by auto
  show ?thesis
    unfolding slots_valid_def
  proof (intro conjI ballI allI impI)
    show "length (module_present_attrs (s\<lparr>sysfs_device := dv, attr_heap := (attr_heap s)(a := None)\<rparr>)) = 32"
      using len by simp
  next
    fix j assume "j \<in> I - {i}" then show "j < 32" using bound by simp
  next
    fix j b assume "j \<in> I - {i}"
      "module_present_attrs (s\<lparr>sysfs_device := dv, attr_heap := (attr_heap s)(a := None)\<rparr>) ! j = Some b"
    then show "attr_heap (s\<lparr>sysfs_device := dv, attr_heap := (attr_heap s)(a := None)\<rparr>) b \<noteq> None"
      using ne [of j b] live0 by auto
  next
    fix j k b assume "j \<in> I - {i}" "k \<in> I - {i}" "j \<noteq> k"
      "module_present_attrs (s\<lparr>sysfs_device := dv, attr_heap := (attr_heap s)(a := None)\<rparr>) ! j = Some b"
    then show "module_present_attrs (s\<lparr>sysfs_device := dv, attr_heap := (attr_heap s)(a := None)\<rparr>) ! k \<noteq> Some b"
      using dist0 by auto
  qed
qed

lemma removed_heap_tracked:
  assumes h: "heap_tracked n0 I s" and i: "i \<in> I" and a: "module_present_attrs s ! i = Some a"
  shows "heap_tracked n0 (I - {i}) (s\<lparr>sysfs_device := dv, attr_heap := (attr_heap s)(a := None)\<rparr>)"
proof -
  have n0: "n0 \<le> next_addr s"
    and rng: "\<forall>j\<in>I. \<forall>b. module_present_attrs s ! j = Some b \<longrightarrow> n0 \<le> b \<and> b < next_addr s"
    and held: "\<forall>b. n0 \<le> b \<longrightarrow> attr_heap s b \<noteq> None \<longrightarrow> (\<exists>j\<in>I. module_present_attrs s ! j = Some b)"
    using h unfolding heap_tracked_def by blast+
  show ?thesis
    unfolding heap_tracked_def
  proof (intro conjI ballI allI impI)
    show "n0 \<le> next_addr (s\<lparr>sysfs_device := dv, attr_heap := (attr_heap s)(a := None)\<rparr>)"
      using n0 by simp
  next
    fix j b assume "j \<in> I - {i}"
      "module_present_attrs (s\<lparr>sysfs_device := dv, attr_heap := (attr_heap s)(a := None)\<rparr>) ! j = Some b"
    then show "n0 \<le> b" "b < next_addr (s\<lparr>sysfs_device := dv, attr_heap := (attr_heap s)(a := None)\<rparr>)"
      using rng by auto
  next
    fix b assume b: "n0 \<le> b"
      "attr_heap (s\<lparr>sysfs_device := dv, attr_heap := (attr_heap s)(a := None)\<rparr>) b \<noteq> None"
    then have "b \<noteq> a" "attr_heap s b \<noteq> None"
      by (auto split: if_splits)
    then obtain j where j: "j \<in> I" "module_present_attrs s ! j = Some b"
      using held b(1) by blast
    then have "j \<noteq> i" using a \<open>b \<noteq> a\<close> by auto
    then show "\<exists>j\<in>I - {i}. module_present_attrs
        (s\<lparr>sysfs_device := dv, attr_heap := (attr_heap s)(a := None)\<rparr>) ! j = Some b"
      using j by auto
  qed
qed

lemma removed_files_covered:
  assumes v: "slots_valid I s" and c: "files_covered I s" and i: "i \<in> I"
    and a: "module_present_attrs s ! i = Some a" "attr_heap s a = Some at"
    and d: "sysfs_device s = Some d"
  shows "files_covered (I - {i})
           (s\<lparr>sysfs_device := Some (d\<lparr>dev_files :=
                   filter (\<lambda>f. Some (fst f) \<noteq> attr_name at) (dev_files d)\<rparr>),
              attr_heap := (attr_heap s)(a := None)\<rparr>)"
    (is "files_covered _ ?s'")
proof -
  have dist0: "\<forall>j\<in>I. \<forall>k\<in>I. \<forall>b. j \<noteq> k \<longrightarrow> module_present_attrs s ! j = Some b
        \<longrightarrow> module_present_attrs s ! k \<noteq> Some b"
    using v unfolding slots_valid_def by blast
  have pub: "published ?s' = filter (\<lambda>f. Some (fst f) \<noteq> attr_name at) (published s)"
    using d by (simp add: published_def)
  show ?thesis
    unfolding files_covered_def
  proof
    fix f assume "f \<in> set (published ?s')"
    then have f: "f \<in> set (published s)" "Some (fst f) \<noteq> attr_name at"
      by (simp_all add: pub)
    then consider "fst f = ''module_bits''"
      | j b bt where "j \<in> I" "module_present_attrs s ! j = Some b" "attr_heap s b = Some bt"
          "attr_name bt = Some (fst f)"
      using c unfolding files_covered_def by blast
    then show "fst f = ''module_bits'' \<or>
        (\<exists>j\<in>I - {i}. \<exists>b bt. module_present_attrs ?s' ! j = Some b \<and> attr_heap ?s' b = Some bt
           \<and> attr_name bt = Some (fst f))"
    proof cases
      case 1
      then show ?thesis by simp
    next
      case 2
      have "j \<noteq> i"
        using 2 a f(2) by auto
      moreover from this have "b \<noteq> a"
        using dist0 2(1,2) i a(1) by auto
      ultimately show ?thesis
        using 2 by (intro disjI2 bexI [of _ j]) auto
    qed
  qed
qed

lemma slots_valid_shrink:
  assumes "slots_valid I s" shows "slots_valid (I - J) s"
proof -
  have live0: "\<forall>j\<in>I. \<forall>b. module_present_attrs s ! j = Some b \<longrightarrow> attr_heap s b \<noteq> None"
    and dist0: "\<forall>j\<in>I. \<forall>k\<in>I. \<forall>b. j \<noteq> k \<longrightarrow> module_present_attrs s ! j = Some b
        \<longrightarrow> module_present_attrs s ! k \<noteq> Some b"
    and len: "length (module_present_attrs s) = 32" and bound: "\<forall>j\<in>I. j < 32"
    using assms unfolding slots_valid_def by blast+
  show ?thesis
    unfolding slots_valid_def
  proof (intro conjI ballI allI impI)
    show "length (module_present_attrs s) = 32" by (rule len)
  next
    fix j assume "j \<in> I - J" then show "j < 32" using bound by simp
  next
    fix j b assume "j \<in> I - J" "module_present_attrs s ! j = Some b"
    then show "attr_heap s b \<noteq> None" using live0 by blast
  next
    fix j k b assume "j \<in> I - J" "k \<in> I - J" "j \<noteq> k" "module_present_attrs s ! j = Some b"
    then show "module_present_attrs s ! k \<noteq> Some b" using dist0 by blast
  qed
qed

lemma heap_tracked_drop_empty:
  assumes "heap_tracked n0 I s" and "module_present_attrs s ! i = None"
  shows "heap_tracked n0 (I - {i}) s"
proof -
  have n0: "n0 \<le> next_addr s"
    and rng: "\<forall>j\<in>I. \<forall>b. module_present_attrs s ! j = Some b \<longrightarrow> n0 \<le> b \<and> b < next_addr s"
    and held: "\<forall>b. n0 \<le> b \<longrightarrow> attr_heap s b \<noteq> None \<longrightarrow> (\<exists>j\<in>I. module_present_attrs s ! j = Some b)"
    using assms(1) unfolding heap_tracked_def by blast+
  have "\<exists>j\<in>I - {i}. module_present_attrs s ! j = Some b" if b: "n0 \<le> b" "attr_heap s b \<noteq> None" for b
  proof -
    obtain j where "j \<in> I" "module_present_attrs s ! j = Some b"
      using held b by blast
    moreover from this have "j \<noteq> i" using assms(2) by auto
    ultimately show ?thesis by auto
  qed
  then have held': "\<forall>b. n0 \<le> b \<longrightarrow> attr_heap s b \<noteq> None
      \<longrightarrow> (\<exists>j\<in>I - {i}. module_present_attrs s ! j = Some b)"
    by blast
  have rng': "\<forall>j\<in>I - {i}. \<forall>b. module_present_attrs s ! j = Some b \<longrightarrow> n0 \<le> b \<and> b < next_addr s"
    using rng by blast
  show ?thesis
    unfolding heap_tracked_def using n0 rng' held' by (intro conjI)
qed

lemma files_covered_drop_empty:
  assumes "files_covered I s" and "module_present_attrs s ! i = None"
  shows "files_covered (I - {i}) s"
  unfolding files_covered_def
proof
  fix f assume "f \<in> set (published s)"
  then consider "fst f = ''module_bits''"
    | j b bt where "j \<in> I" "module_present_attrs s ! j = Some b" "attr_heap s b = Some bt"
        "attr_name bt = Some (fst f)"
    using assms(1) unfolding files_covered_def by blast
  then show "fst f = ''module_bits'' \<or>
        (\<exists>j\<in>I - {i}. \<exists>b bt. module_present_attrs s ! j = Some b \<and> attr_heap s b = Some bt
           \<and> attr_name bt = Some (fst f))"
  proof cases
    case 1
    then show ?thesis by simp
  next
    case 2
    then have "j \<noteq> i" using assms(2) by auto
    then show ?thesis
      using 2 by (intro disjI2 bexI [of _ j]) auto
  qed
qed

lemma cleanup_one_step:
  assumes v: "slots_valid I s" and h: "heap_tracked n0 I s" and c: "files_covered I s"
    and l: "dev_live dev s" and i: "i \<in> I"
  shows "\<exists>s'. cleanup_one (PTR dev) i s = Some s'
          \<and> (slots_valid (I - {i}) s' \<and> heap_tracked n0 (I - {i}) s' \<and> files_covered (I - {i}) s'
               \<and> dev_live dev s')
          \<and> (same_frame s s' \<and> next_addr s' = next_addr s
               \<and> module_present_attrs s' = module_present_attrs s
               \<and> set (published s') \<subseteq> set (published s)
               \<and> (\<forall>b. b < n0 \<longrightarrow> attr_heap s' b = attr_heap s b))"
proof -
  from l obtain d where d: "sysfs_device s = Some d" "dev_addr d = dev"
    unfolding dev_live_def by blast
  have "attr_heap s a \<noteq> None" if "module_present_attrs s ! i = Some a" for a
    using v i that unfolding slots_valid_def by blast
  then consider (empty) "module_present_attrs s ! i = None"
    | (held) a at where "module_present_attrs s ! i = Some a" "attr_heap s a = Some at"
    by (cases "module_present_attrs s ! i") auto
  then show ?thesis
  proof cases
    case empty
    then have "cleanup_one (PTR dev) i s = Some s"
      by (simp add: cleanup_one_def)
    then show ?thesis
      using slots_valid_shrink [OF v, of "{i}"] heap_tracked_drop_empty [OF h empty]
        files_covered_drop_empty [OF c empty] l
      by simp
  next
    case held
    let ?s' = "s\<lparr>sysfs_device := Some (d\<lparr>dev_files :=
                            filter (\<lambda>f. Some (fst f) \<noteq> attr_name at) (dev_files d)\<rparr>),
                        attr_heap := (attr_heap s)(a := None)\<rparr>"
    have "n0 \<le> a"
      using h i held(1) unfolding heap_tracked_def by blast
    then have low: "\<forall>b. b < n0 \<longrightarrow> attr_heap ?s' b = attr_heap s b"
      by simp
    have fr: "same_frame s ?s'" "dev_live dev ?s'"
      using d by (simp_all add: same_frame_def dev_live_def)
    have pub: "set (published ?s') \<subseteq> set (published s)"
      using d by (auto simp: published_def)
    have run: "cleanup_one (PTR dev) i s = Some ?s'"
      using held d by (simp add: cleanup_one_def device_remove_file_def kfree_def)
    show ?thesis
      unfolding run
      using removed_slots_valid [OF v i held(1)] removed_heap_tracked [OF h i held(1)]
        removed_files_covered [OF v c i held(1,2) d(1)] low fr pub
      by simp
  qed
qed

lemma cleanup_loop:
  assumes v: "slots_valid {..<32} s" and h: "heap_tracked n0 {..<32} s"
    and c: "files_covered {..<32} s" and l: "dev_live dev s"
  shows "\<exists>s'. for_each (cleanup_one (PTR dev)) [0..<32] s = Some s'
          \<and> (slots_valid {} s' \<and> heap_tracked n0 {} s' \<and> files_covered {} s' \<and> dev_live dev s')
          \<and> (same_frame s s' \<and> next_addr s' = next_addr s
               \<and> module_present_attrs s' = module_present_attrs s
               \<and> set (published s') \<subseteq> set (published s)
               \<and> (\<forall>b. b < n0 \<longrightarrow> attr_heap s' b = attr_heap s b))"
proof -
  have "\<exists>s'. for_each (cleanup_one (PTR dev)) [0..<32] s = Some s'
          \<and> (slots_valid ({..<32} - set [0..<32]) s' \<and> heap_tracked n0 ({..<32} - set [0..<32]) s'
              \<and> files_covered ({..<32} - set [0..<32]) s' \<and> dev_live dev s')
          \<and> (same_frame s s' \<and> next_addr s' = next_addr s
               \<and> module_present_attrs s' = module_present_attrs s
               \<and> set (published s') \<subseteq> set (published s)
               \<and> (\<forall>b. b < n0 \<longrightarrow> attr_heap s' b = attr_heap s b))"
  proof (rule for_each_induct [where
        Inv = "\<lambda>I s. slots_valid I s \<and> heap_tracked n0 I s \<and> files_covered I s \<and> dev_live dev s"
        and R = "\<lambda>s s'. same_frame s s' \<and> next_addr s' = next_addr s
               \<and> module_present_attrs s' = module_present_attrs s
               \<and> set (published s') \<subseteq> set (published s)
               \<and> (\<forall>b. b < n0 \<longrightarrow> attr_heap s' b = attr_heap s b)"])
    fix i I s
    assume "slots_valid I s \<and> heap_tracked n0 I s \<and> files_covered I s \<and> dev_live dev s" "i \<in> I"
    then show "\<exists>s'. cleanup_one (PTR dev) i s = Some s'
          \<and> (slots_valid (I - {i}) s' \<and> heap_tracked n0 (I - {i}) s' \<and> files_covered (I - {i}) s'
               \<and> dev_live dev s')
          \<and> (same_frame s s' \<and> next_addr s' = next_addr s
               \<and> module_present_attrs s' = module_present_attrs s
               \<and> set (published s') \<subseteq> set (published s)
               \<and> (\<forall>b. b < n0 \<longrightarrow> attr_heap s' b = attr_heap s b))"
      by (intro cleanup_one_step) simp_all
  next
    fix s show "same_frame s s \<and> next_addr s = next_addr s
               \<and> module_present_attrs s = module_present_attrs s
               \<and> set (published s) \<subseteq> set (published s)
               \<and> (\<forall>b. b < n0 \<longrightarrow> attr_heap s b = attr_heap s b)"
      by simp
  next
    fix s s1 s2
    assume "same_frame s s1 \<and> next_addr s1 = next_addr s
               \<and> module_present_attrs s1 = module_present_attrs s
               \<and> set (published s1) \<subseteq> set (published s)
               \<and> (\<forall>b. b < n0 \<longrightarrow> attr_heap s1 b = attr_heap s b)"
      "same_frame s1 s2 \<and> next_addr s2 = next_addr s1
               \<and> module_present_attrs s2 = module_present_attrs s1
               \<and> set (published s2) \<subseteq> set (published s1)
               \<and> (\<forall>b. b < n0 \<longrightarrow> attr_heap s2 b = attr_heap s1 b)"
    then show "same_frame s s2 \<and> next_addr s2 = next_addr s
               \<and> module_present_attrs s2 = module_present_attrs s
               \<and> set (published s2) \<subseteq> set (published s)
               \<and> (\<forall>b. b < n0 \<longrightarrow> attr_heap s2 b = attr_heap s b)"
      using same_frame_trans by auto
  next
    show "slots_valid {..<32} s \<and> heap_tracked n0 {..<32} s \<and> files_covered {..<32} s \<and> dev_live dev s"
      using v h c l by simp
  next
    show "set [0..<32] \<subseteq> {..<32}" by auto
  next
    show "distinct [0..<32]" by simp
  qed
  moreover have "{..<32::nat} - set [0..<32] = {}"
    by auto
  ultimately show ?thesis by (simp only:)
qed

section \<open>\<^verbatim>\<open>create_module_sysfs_files\<close> as a whole\<close>

lemma create_module_sysfs_files_spec:
  assumes e: "registry_empty s" and l: "dev_live dev s" and p: "published s = []"
  shows "\<exists>ret s'. create_module_sysfs_files env (PTR dev) s = Some (ret, s')
     \<and> same_frame s s' \<and> dev_live dev s'
     \<and> (ret \<noteq> 0 \<longrightarrow> published s' = [] \<and> attr_heap s' = attr_heap s)
     \<and> (ret = 0 \<longrightarrow> slots_valid {..<32} s'
           \<and> (''module_bits'', Dev_attr_module_bits) \<in> set (published s')
           \<and> distinct (map fst (published s'))
           \<and> (\<forall>i<32. \<exists>a. module_present_attrs s' ! i = Some a
                 \<and> attr_heap s' a =
                     Some \<lparr>attr_name = Some (bit_attr_name i), attr_mode = 292,
                           attr_show = Some Module_present_show\<rparr>
                 \<and> (bit_attr_name i, Dyn_attr a) \<in> set (published s')))"
proof -
  from l obtain d where d: "sysfs_device s = Some d" "dev_addr d = dev"
    unfolding dev_live_def by blast
  have files: "dev_files d = []"
    using p d by (simp add: published_def)
  have slots: "module_present_attrs s = replicate 32 None"
    and fresh: "\<forall>a. next_addr s \<le> a \<longrightarrow> attr_heap s a = None"
    using e unfolding registry_empty_def by blast+
  show ?thesis
  proof (cases "module_bits_file_fails env")
    case (Some err)
    then have "create_module_sysfs_files env (PTR dev) s = Some (neg_errno err, s)"
      using d by (simp add: create_module_sysfs_files_def device_create_file_def)
    then show ?thesis
      using l p by simp
  next
    case None
    define s1 where "s1 = s\<lparr>sysfs_device :=
        Some (d\<lparr>dev_files := dev_files d @ [(''module_bits'', Dev_attr_module_bits)]\<rparr>)\<rparr>"
    have first: "device_create_file (module_bits_file_fails env) (PTR dev) ''module_bits''
             Dev_attr_module_bits s = Some (0, s1)"
      using d files None by (simp add: device_create_file_def s1_def)
    have pub1: "published s1 = [(''module_bits'', Dev_attr_module_bits)]"
      using files by (simp add: s1_def published_def)
    have fr1: "same_frame s s1"
      using d by (simp add: s1_def same_frame_def)
    have l1: "dev_live dev s1"
      using d by (simp add: s1_def dev_live_def)
    have slots1: "module_present_attrs s1 = replicate 32 None"
      using slots by (simp add: s1_def)
    have heap1: "attr_heap s1 = attr_heap s" "next_addr s1 = next_addr s"
      by (simp_all add: s1_def)
    have v1: "slots_valid {..<32} s1"
      unfolding slots_valid_def by (simp add: slots1)
    have h1: "heap_tracked (next_addr s) {..<32} s1"
      unfolding heap_tracked_def using fresh by (simp add: slots1 heap1)
    have c1: "files_covered {..<32} s1"
      unfolding files_covered_def by (simp add: pub1)
    from create_loop_total [OF l1]
    obtain ret s2 where loop: "create_loop env (PTR dev) [0..<32] s1 = Some (ret, s2)"
      and l2: "dev_live dev s2"
      by blast
    have none: "\<forall>i\<in>set [0..<32]. i < 32 \<and> module_present_attrs s1 ! i = None"
      by (simp add: slots1)
    have "distinct [0..<32]" by simp
    note inv = create_loop_inv [OF loop this none v1 h1 c1]
    have fr2: "same_frame s s2"
      using same_frame_trans [OF fr1] inv by blast
    show ?thesis
    proof (cases "ret = 0")
      case True
      have run: "create_module_sysfs_files env (PTR dev) s = Some (0, s2)"
        using first loop True by (simp add: create_module_sysfs_files_def)
      have a: "(''module_bits'', Dev_attr_module_bits) \<in> set (published s2)"
        using inv pub1 by auto
      have b: "distinct (map fst (published s2))"
        using inv pub1 by simp
      have c: "\<forall>i<32. \<exists>a. module_present_attrs s2 ! i = Some a
                 \<and> attr_heap s2 a =
                     Some \<lparr>attr_name = Some (bit_attr_name i), attr_mode = 292,
                           attr_show = Some Module_present_show\<rparr>
                 \<and> (bit_attr_name i, Dyn_attr a) \<in> set (published s2)"
        using inv True by simp
      show ?thesis
        unfolding run using fr2 l2 inv a b c by simp
    next
      case False
      from inv have v2: "slots_valid {..<32} s2" and h2: "heap_tracked (next_addr s) {..<32} s2"
        and c2: "files_covered {..<32} s2"
        and low2: "\<forall>a. a < next_addr s \<longrightarrow> attr_heap s2 a = attr_heap s a"
        by (simp_all add: heap1)
      from cleanup_loop [OF v2 h2 c2 l2]
      obtain s3 where clean: "for_each (cleanup_one (PTR dev)) [0..<32] s2 = Some s3"
        and h3: "heap_tracked (next_addr s) {} s3" and c3: "files_covered {} s3"
        and l3: "dev_live dev s3" and fr3: "same_frame s2 s3"
        and low3: "\<forall>b. b < next_addr s \<longrightarrow> attr_heap s3 b = attr_heap s2 b"
        by blast
      from l3 obtain d3 where d3: "sysfs_device s3 = Some d3" "dev_addr d3 = dev"
        unfolding dev_live_def by blast
      define s4 where "s4 = s3\<lparr>sysfs_device := Some (d3\<lparr>dev_files :=
          filter (\<lambda>f. Some (fst f) \<noteq> Some ''module_bits'') (dev_files d3)\<rparr>)\<rparr>"
      have last: "device_remove_file (PTR dev) (Some ''module_bits'') s3 = Some s4"
        using d3 by (simp add: device_remove_file_def s4_def)
      have run: "create_module_sysfs_files env (PTR dev) s = Some (ret, s4)"
        using first loop False clean last by (simp add: create_module_sysfs_files_def)
      have "\<forall>f\<in>set (dev_files d3). fst f = ''module_bits''"
        using c3 d3 unfolding files_covered_def by (simp add: published_def)
      then have "filter (\<lambda>f. Some (fst f) \<noteq> Some ''module_bits'') (dev_files d3) = []"
        by (simp add: filter_empty_conv)
      then have pub4: "published s4 = []"
        by (simp add: s4_def published_def)
      have "attr_heap s3 b = attr_heap s b" for b
      proof (cases "b < next_addr s")
        case True
        then show ?thesis using low3 low2 by simp
      next
        case False
        then have "attr_heap s3 b = None"
          using h3 unfolding heap_tracked_def by auto
        then show ?thesis using fresh False by simp
      qed
      then have heap4: "attr_heap s4 = attr_heap s"
        by (auto simp: s4_def)
      have fr4: "same_frame s s4"
        using same_frame_trans [OF fr2 fr3] d3 by (simp add: s4_def same_frame_def)
      have l4: "dev_live dev s4"
        using d3 by (simp add: s4_def dev_live_def)
      show ?thesis
        unfolding run using False pub4 heap4 fr4 l4 by simp
    qed
  qed
qed

section \<open>The loop of \<^verbatim>\<open>remove_module_sysfs_files\<close>\<close>





lemma slots_valid_set_slot_outside:
  assumes v: "slots_valid J s" and i: "i \<notin> J"
  shows "slots_valid J (set_slot i p s)"
proof -
  have eq: "module_present_attrs (set_slot i p s) ! j = module_present_attrs s ! j" if "j \<in> J" for j
  proof -
    have "i \<noteq> j" using that i by blast
    then show ?thesis by (simp add: set_slot_def)
  qed
  have live0: "\<forall>j\<in>J. \<forall>b. module_present_attrs s ! j = Some b \<longrightarrow> attr_heap s b \<noteq> None"
    and dist0: "\<forall>j\<in>J. \<forall>k\<in>J. \<forall>b. j \<noteq> k \<longrightarrow> module_present_attrs s ! j = Some b
        \<longrightarrow> module_present_attrs s ! k \<noteq> Some b"
    and len: "length (module_present_attrs s) = 32" and bound: "\<forall>j\<in>J. j < 32"
    using v unfolding slots_valid_def by blast+
  show ?thesis
    unfolding slots_valid_def
  proof (intro conjI ballI allI impI)
    show "length (module_present_attrs (set_slot i p s)) = 32" using len by simp
  next
    fix j assume "j \<in> J" then show "j < 32" using bound by simp
  next
    fix j b assume "j \<in> J" "module_present_attrs (set_slot i p s) ! j = Some b"
    then show "attr_heap (set_slot i p s) b \<noteq> None" using live0 eq by auto
  next
    fix j k b assume "j \<in> J" "k \<in> J" "j \<noteq> k" "module_present_attrs (set_slot i p s) ! j = Some b"
    then show "module_present_attrs (set_slot i p s) ! k \<noteq> Some b" using dist0 eq by auto
  qed
qed

lemma removing_start:
  assumes "slots_valid {..<32} s" and "dev_live dev s"
  shows "removing dev s {..<32} s"
  using assms unfolding removing_def by auto

lemma remove_one_step:
  assumes inv: "removing dev s0 I st" and i: "i \<in> I"
  shows "\<exists>st'. remove_one (PTR dev) i st = Some st' \<and> removing dev s0 (I - {i}) st'"
proof -
  from inv have v: "slots_valid I st" and l: "dev_live dev st" and fr: "same_frame s0 st"
    and nx: "next_addr st = next_addr s0"
    and keep: "\<forall>k\<in>I. module_present_attrs st ! k = module_present_attrs s0 ! k"
    and gone: "\<forall>k<32. k \<notin> I \<longrightarrow> module_present_attrs st ! k = None"
    and heap: "\<forall>a. attr_heap st a =
        (if \<exists>k<32. k \<notin> I \<and> module_present_attrs s0 ! k = Some a then None
         else attr_heap s0 a)"
    and pub: "published st =
       filter (\<lambda>f. \<forall>k<32. k \<notin> I \<longrightarrow> Some (fst f) \<noteq> held_name s0 k) (published s0)"
    unfolding removing_def by blast+
  have i32: "i < 32" and len: "length (module_present_attrs st) = 32"
    using v i unfolding slots_valid_def by blast+
  from l obtain d where d: "sysfs_device st = Some d" "dev_addr d = dev"
    unfolding dev_live_def by blast
  have slot0: "module_present_attrs s0 ! i = module_present_attrs st ! i"
    using keep i by simp
  show ?thesis
  proof (cases "module_present_attrs st ! i")
    case None
    have run: "remove_one (PTR dev) i st = Some st"
      using None by (simp add: remove_one_def)
    have hn: "held_name s0 i = None"
      using None slot0 by (simp add: held_name_def)
    have 1: "\<forall>k\<in>I - {i}. module_present_attrs st ! k = module_present_attrs s0 ! k"
      using keep by simp
    have 2: "\<forall>k<32. k \<notin> I - {i} \<longrightarrow> module_present_attrs st ! k = None"
      using gone None by auto
    have 3: "\<forall>a. attr_heap st a =
        (if \<exists>k<32. k \<notin> I - {i} \<and> module_present_attrs s0 ! k = Some a then None
         else attr_heap s0 a)"
    proof
      fix a
      have "(\<exists>k<32. k \<notin> I - {i} \<and> module_present_attrs s0 ! k = Some a)
            = (\<exists>k<32. k \<notin> I \<and> module_present_attrs s0 ! k = Some a)"
        using None slot0 i by auto
      then show "attr_heap st a =
        (if \<exists>k<32. k \<notin> I - {i} \<and> module_present_attrs s0 ! k = Some a then None
         else attr_heap s0 a)"
        using heap by simp
    qed
    have "(\<forall>k<32. k \<notin> I - {i} \<longrightarrow> Some (fst f) \<noteq> held_name s0 k)
          = (\<forall>k<32. k \<notin> I \<longrightarrow> Some (fst f) \<noteq> held_name s0 k)"
      for f :: "string \<times> attr_ref"
      using hn i by auto
    then have 4: "published st =
       filter (\<lambda>f. \<forall>k<32. k \<notin> I - {i} \<longrightarrow> Some (fst f) \<noteq> held_name s0 k) (published s0)"
      using pub by simp
    have "removing dev s0 (I - {i}) st"
      unfolding removing_def
      using slots_valid_shrink [OF v, of "{i}"] l fr nx 1 2 3 4 by (intro conjI)
    then show ?thesis using run by simp
  next
    case (Some a)
    have "attr_heap st a \<noteq> None"
      using v i Some unfolding slots_valid_def by blast
    then obtain at where at: "attr_heap st a = Some at" by blast
    have at0: "attr_heap s0 a = Some at"
      and fresh_a: "\<not> (\<exists>k<32. k \<notin> I \<and> module_present_attrs s0 ! k = Some a)"
      using heap at by (auto split: if_splits)
    have hn: "held_name s0 i = attr_name at"
      using Some slot0 at0 by (simp add: held_name_def)
    define mid where "mid = st\<lparr>sysfs_device := Some (d\<lparr>dev_files :=
                            filter (\<lambda>f. Some (fst f) \<noteq> attr_name at) (dev_files d)\<rparr>),
                        attr_heap := (attr_heap st)(a := None)\<rparr>"
    define st' where "st' = set_slot i None mid"
    have run: "remove_one (PTR dev) i st = Some st'"
      using Some at d
      by (simp add: remove_one_def device_remove_file_def kfree_def st'_def mid_def)
    have slot': "module_present_attrs st' ! k = (if k = i then None else module_present_attrs st ! k)"
      for k
      using len i32 by (simp add: st'_def mid_def slot_set_slot)
    have heap': "attr_heap st' b = (if b = a then None else attr_heap st b)" for b
      by (simp add: st'_def mid_def)
    have pub': "published st' = filter (\<lambda>f. Some (fst f) \<noteq> attr_name at) (published st)"
      using d by (simp add: st'_def mid_def published_def)
    have v': "slots_valid (I - {i}) st'"
      unfolding st'_def mid_def
      by (rule slots_valid_set_slot_outside [OF removed_slots_valid [OF v i Some]]) simp
    have l': "dev_live dev st'"
      using d by (simp add: st'_def mid_def dev_live_def)
    have fr': "same_frame s0 st'"
      using fr d by (simp add: st'_def mid_def same_frame_def)
    have nx': "next_addr st' = next_addr s0"
      using nx by (simp add: st'_def mid_def)
    have 1: "\<forall>k\<in>I - {i}. module_present_attrs st' ! k = module_present_attrs s0 ! k"
      using keep by (simp add: slot')
    have 2: "\<forall>k<32. k \<notin> I - {i} \<longrightarrow> module_present_attrs st' ! k = None"
      using gone by (simp add: slot')
    have 3: "\<forall>b. attr_heap st' b =
        (if \<exists>k<32. k \<notin> I - {i} \<and> module_present_attrs s0 ! k = Some b then None
         else attr_heap s0 b)"
    proof
      fix b
      show "attr_heap st' b =
        (if \<exists>k<32. k \<notin> I - {i} \<and> module_present_attrs s0 ! k = Some b then None
         else attr_heap s0 b)"
      proof (cases "b = a")
        case True
        have "\<exists>k<32. k \<notin> I - {i} \<and> module_present_attrs s0 ! k = Some b"
          using True Some slot0 i32 by auto
        then show ?thesis using True by (simp add: heap')
      next
        case False
        have "(\<exists>k<32. k \<notin> I - {i} \<and> module_present_attrs s0 ! k = Some b)
            = (\<exists>k<32. k \<notin> I \<and> module_present_attrs s0 ! k = Some b)"
          using False Some slot0 by auto
        then show ?thesis using False heap by (simp add: heap')
      qed
    qed
    have "(\<forall>k<32. k \<notin> I - {i} \<longrightarrow> Some (fst f) \<noteq> held_name s0 k)
          = ((\<forall>k<32. k \<notin> I \<longrightarrow> Some (fst f) \<noteq> held_name s0 k) \<and> Some (fst f) \<noteq> attr_name at)"
      for f :: "string \<times> attr_ref"
      using hn i i32 by auto
    then have 4: "published st' =
       filter (\<lambda>f. \<forall>k<32. k \<notin> I - {i} \<longrightarrow> Some (fst f) \<noteq> held_name s0 k) (published s0)"
      by (simp add: pub' pub)
    have "removing dev s0 (I - {i}) st'"
      unfolding removing_def using v' l' fr' nx' 1 2 3 4 by (intro conjI)
    then show ?thesis using run by simp
  qed
qed

lemma remove_loop:
  assumes v: "slots_valid {..<32} s" and l: "dev_live dev s"
  shows "\<exists>s1. for_each (remove_one (PTR dev)) [0..<32] s = Some s1 \<and> removing dev s {} s1"
proof -
  have "\<exists>s1. for_each (remove_one (PTR dev)) [0..<32] s = Some s1
          \<and> removing dev s ({..<32} - set [0..<32]) s1 \<and> True"
  proof (rule for_each_induct [where Inv = "removing dev s" and R = "\<lambda>s s'. True"])
    fix i I st assume "removing dev s I st" "i \<in> I"
    then show "\<exists>s'. remove_one (PTR dev) i st = Some s' \<and> removing dev s (I - {i}) s' \<and> True"
      using remove_one_step by simp
  next
    show "removing dev s {..<32} s"
      by (rule removing_start [OF v l])
  next
    show "set [0..<32] \<subseteq> {..<32}" by auto
  next
    show "distinct [0..<32]" by simp
  qed simp_all
  moreover have "{..<32::nat} - set [0..<32] = {}"
    by auto
  ultimately show ?thesis by (simp only: simp_thms)
qed

lemma remove_loop_empty:
  assumes "\<forall>i\<in>set is. module_present_attrs s ! i = None"
  shows "for_each (remove_one dev) is s = Some s"
  using assms by (induction "is") (simp_all add: remove_one_def)

lemma remove_module_sysfs_files_spec:
  assumes v: "slots_valid {..<32} s" and l: "dev_live dev s"
  shows "\<exists>s'. remove_module_sysfs_files (PTR dev) s = Some s'
     \<and> module_present_attrs s' = replicate 32 None
     \<and> (\<forall>a. attr_heap s' a =
           (if \<exists>i<32. module_present_attrs s ! i = Some a then None else attr_heap s a))
     \<and> published s' =
           filter (\<lambda>f. fst f \<noteq> ''module_bits'' \<and> (\<forall>i<32. Some (fst f) \<noteq> held_name s i))
             (published s)
     \<and> same_frame s s' \<and> dev_live dev s' \<and> next_addr s' = next_addr s
     \<and> remove_module_sysfs_files (PTR dev) s' = Some s'"
proof -
  from remove_loop [OF v l]
  obtain s1 where loop: "for_each (remove_one (PTR dev)) [0..<32] s = Some s1"
    and r: "removing dev s {} s1"
    by blast
  from r have v1: "slots_valid {} s1" and l1: "dev_live dev s1" and fr1: "same_frame s s1"
    and nx1: "next_addr s1 = next_addr s"
    and gone: "\<forall>i<32. module_present_attrs s1 ! i = None"
    and heap1: "\<forall>a. attr_heap s1 a =
        (if \<exists>i<32. module_present_attrs s ! i = Some a then None else attr_heap s a)"
    and pub1: "published s1 = filter (\<lambda>f. \<forall>i<32. Some (fst f) \<noteq> held_name s i) (published s)"
    unfolding removing_def by simp_all
  have len1: "length (module_present_attrs s1) = 32"
    using v1 by (simp add: slots_valid_def)
  from l1 obtain d1 where d1: "sysfs_device s1 = Some d1" "dev_addr d1 = dev"
    unfolding dev_live_def by blast
  define s' where "s' = s1\<lparr>sysfs_device := Some (d1\<lparr>dev_files :=
          filter (\<lambda>f. Some (fst f) \<noteq> Some ''module_bits'') (dev_files d1)\<rparr>)\<rparr>"
  have last: "device_remove_file (PTR dev) (Some ''module_bits'') s1 = Some s'"
    using d1 by (simp add: device_remove_file_def s'_def)
  have run: "remove_module_sysfs_files (PTR dev) s = Some s'"
    using loop last by (simp add: remove_module_sysfs_files_def)
  have slots': "module_present_attrs s' = replicate 32 None"
    using len1 gone by (auto simp: s'_def intro: nth_equalityI)
  have heap': "\<forall>a. attr_heap s' a =
        (if \<exists>i<32. module_present_attrs s ! i = Some a then None else attr_heap s a)"
    using heap1 by (simp add: s'_def)
  have "published s' = filter (\<lambda>f. fst f \<noteq> ''module_bits'') (published s1)"
    using d1 by (simp add: s'_def published_def)
  then have pub': "published s' =
      filter (\<lambda>f. fst f \<noteq> ''module_bits'' \<and> (\<forall>i<32. Some (fst f) \<noteq> held_name s i))
        (published s)"
    by (simp add: pub1 conj_commute)
  have fr': "same_frame s s'"
    using fr1 d1 by (simp add: s'_def same_frame_def)
  have l': "dev_live dev s'"
    using d1 by (simp add: s'_def dev_live_def)
  have nx': "next_addr s' = next_addr s"
    using nx1 by (simp add: s'_def)
  have again_loop: "for_each (remove_one (PTR dev)) [0..<32] s' = Some s'"
    by (rule remove_loop_empty) (simp add: slots')
  have again_last: "device_remove_file (PTR dev) (Some ''module_bits'') s' = Some s'"
    using d1 by (simp add: device_remove_file_def s'_def)
  have again: "remove_module_sysfs_files (PTR dev) s' = Some s'"
    using again_loop again_last by (simp add: remove_module_sysfs_files_def)
  show ?thesis
    using run slots' heap' pub' fr' l' nx' again by blast
qed

section \<open>The probe as a whole\<close>

lemma probe_spec:
  assumes e: "registry_empty s"
  shows "\<exists>ret s'. hw_module_detector_probe env s = Some (ret, s')
     \<and> (ret \<noteq> 0 \<longrightarrow> hw_detector s' = hw_detector s \<and> drvdata s' = drvdata s
            \<and> sysfs_class s' = sysfs_class s \<and> sysfs_device s' = sysfs_device s
            \<and> attr_heap s' = attr_heap s \<and> iomem s' = iomem s)
     \<and> (ret = 0 \<longrightarrow> (\<exists>base c dv.
            ioremap_ret env = Inr base
          \<and> hw_detector s' = Some \<lparr>reg_base = PTR base, module_bits = iomem s base,
                                   hw_class = PTR c, hw_device = PTR dv\<rparr>
          \<and> drvdata s' = hw_detector s'
          \<and> sysfs_class s' = Some c \<and> dev_live dv s'
          \<and> map_option dev_class (sysfs_device s') = Some c
          \<and> iomem s' = iomem s
          \<and> slots_valid {..<32} s'
          \<and> (''module_bits'', Dev_attr_module_bits) \<in> set (published s')
          \<and> distinct (map fst (published s'))
          \<and> (\<forall>i<32. \<exists>a. module_present_attrs s' ! i = Some a
                 \<and> attr_heap s' a =
                     Some \<lparr>attr_name = Some (bit_attr_name i), attr_mode = 292,
                           attr_show = Some Module_present_show\<rparr>
                 \<and> (bit_attr_name i, Dyn_attr a) \<in> set (published s'))))"
proof -
  have slots: "module_present_attrs s = replicate 32 None"
    and fresh: "\<forall>a. next_addr s \<le> a \<longrightarrow> attr_heap s a = None"
    using e unfolding registry_empty_def by blast+
  consider (nomem) "devm_kzalloc_fails env"
    | (nores) "\<not> devm_kzalloc_fails env" "resource_missing env"
    | (nomap) err where "\<not> devm_kzalloc_fails env" "\<not> resource_missing env"
        "ioremap_ret env = Inl err"
    | (mapped) base where "\<not> devm_kzalloc_fails env" "\<not> resource_missing env"
        "ioremap_ret env = Inr base"
    by (cases "ioremap_ret env") auto
  then show ?thesis
  proof cases
    case nomem
    then have "hw_module_detector_probe env s = Some (neg_errno ENOMEM, s)"
      by (simp add: hw_module_detector_probe_def)
    then show ?thesis by simp
  next
    case nores
    then have "hw_module_detector_probe env s = Some (neg_errno EINVAL, s)"
      by (simp add: hw_module_detector_probe_def)
    then show ?thesis by simp
  next
    case nomap
    then have "hw_module_detector_probe env s = Some (neg_errno err, s)"
      by (simp add: hw_module_detector_probe_def zeroed_detector_def)
    then show ?thesis by simp
  next
    case mapped
    define d1 where "d1 = \<lparr>reg_base = PTR base, module_bits = iomem s base,
                            hw_class = NULL, hw_device = NULL\<rparr>"
    have rd: "read_hw_module_reg s (Some (zeroed_detector\<lparr>reg_base := PTR base\<rparr>)) = Some (Some d1)"
      by (simp add: read_hw_module_reg_def readl_def zeroed_detector_def d1_def)
    define n where "n = next_addr s"
    show ?thesis
    proof (cases "class_create_fails env = None \<and> sysfs_class s = None")
      case False
      then have "\<exists>err. class_create (class_create_fails env) s = (ERR_PTR err, s)"
        by (cases "class_create_fails env"; cases "sysfs_class s") (simp_all add: class_create_def)
      then obtain err where cc: "class_create (class_create_fails env) s = (ERR_PTR err, s)"
        by blast
      have "hw_module_detector_probe env s = Some (neg_errno err, s)"
        using mapped rd cc by (simp add: hw_module_detector_probe_def)
      then show ?thesis by simp
    next
      case True
      define s1 where "s1 = s\<lparr>sysfs_class := Some n, next_addr := Suc n\<rparr>"
      have cc: "class_create (class_create_fails env) s = (PTR n, s1)"
        using True by (simp add: class_create_def s1_def n_def)
      show ?thesis
      proof (cases "device_create_fails env = None \<and> sysfs_device s = None")
        case False
        then have "\<exists>err. device_create (device_create_fails env) (PTR n) s1 = Some (ERR_PTR err, s1)"
          by (cases "device_create_fails env"; cases "sysfs_device s")
            (simp_all add: device_create_def s1_def)
        then obtain err where dc: "device_create (device_create_fails env) (PTR n) s1 = Some (ERR_PTR err, s1)"
          by blast
        have cd: "class_destroy (PTR n) s1 = Some (s1\<lparr>sysfs_class := None\<rparr>)"
          by (simp add: class_destroy_def s1_def)
        have "hw_module_detector_probe env s = Some (neg_errno err, s1\<lparr>sysfs_class := None\<rparr>)"
          using mapped rd cc dc cd by (simp add: hw_module_detector_probe_def)
        then show ?thesis
          using True by (simp add: s1_def)
      next
        case nodev: True
        define s2 where "s2 = s1\<lparr>sysfs_device :=
            Some \<lparr>dev_addr = Suc n, dev_class = n, dev_files = []\<rparr>, next_addr := Suc (Suc n)\<rparr>"
        have dc: "device_create (device_create_fails env) (PTR n) s1 = Some (PTR (Suc n), s2)"
          using nodev by (simp add: device_create_def s1_def s2_def)
        have e2: "registry_empty s2"
          unfolding registry_empty_def using slots fresh by (simp add: s2_def s1_def n_def)
        have l2: "dev_live (Suc n) s2"
          by (simp add: dev_live_def s2_def)
        have p2: "published s2 = []"
          by (simp add: published_def s2_def)
        from create_module_sysfs_files_spec [OF e2 l2 p2, of env]
        obtain ret s3 where cr: "create_module_sysfs_files env (PTR (Suc n)) s2 = Some (ret, s3)"
          and fr3: "same_frame s2 s3" and l3: "dev_live (Suc n) s3"
          and bad: "ret \<noteq> 0 \<longrightarrow> published s3 = [] \<and> attr_heap s3 = attr_heap s2"
          and good: "ret = 0 \<longrightarrow> slots_valid {..<32} s3
           \<and> (''module_bits'', Dev_attr_module_bits) \<in> set (published s3)
           \<and> distinct (map fst (published s3))
           \<and> (\<forall>i<32. \<exists>a. module_present_attrs s3 ! i = Some a
                 \<and> attr_heap s3 a =
                     Some \<lparr>attr_name = Some (bit_attr_name i), attr_mode = 292,
                           attr_show = Some Module_present_show\<rparr>
                 \<and> (bit_attr_name i, Dyn_attr a) \<in> set (published s3))"
          by blast
        have f3: "hw_detector s3 = hw_detector s" "drvdata s3 = drvdata s" "iomem s3 = iomem s"
          "sysfs_class s3 = Some n" "map_option dev_class (sysfs_device s3) = Some n"
          using fr3 by (simp_all add: same_frame_def s2_def s1_def)
        define det where "det = \<lparr>reg_base = PTR base, module_bits = iomem s base,
                            hw_class = PTR n, hw_device = PTR (Suc n)\<rparr>"
        show ?thesis
        proof (cases "ret = 0")
          case True
          have "hw_module_detector_probe env s
                  = Some (0, s3\<lparr>hw_detector := Some det, drvdata := Some det\<rparr>)"
            using mapped rd cc dc cr True
            by (simp add: hw_module_detector_probe_def d1_def det_def Let_def)
          moreover have "dev_live (Suc n) (s3\<lparr>hw_detector := Some det, drvdata := Some det\<rparr>)"
            using l3 by (simp add: dev_live_def)
          moreover have "slots_valid {..<32} (s3\<lparr>hw_detector := Some det, drvdata := Some det\<rparr>)"
            using good True by (simp add: slots_valid_def)
          moreover have "published (s3\<lparr>hw_detector := Some det, drvdata := Some det\<rparr>) = published s3"
            by (simp add: published_def)
          ultimately show ?thesis
            using good True f3 mapped(3) by (simp add: det_def)
        next
          case False
          obtain d3 where d3: "sysfs_device s3 = Some d3" "dev_class d3 = n"
            using f3(5) by auto
          have dd: "device_destroy (PTR n) s3 = Some (s3\<lparr>sysfs_device := None\<rparr>)"
            using f3(4) d3 by (simp add: device_destroy_def)
          have cd: "class_destroy (PTR n) (s3\<lparr>sysfs_device := None\<rparr>)
                      = Some (s3\<lparr>sysfs_device := None, sysfs_class := None\<rparr>)"
            using f3(4) by (simp add: class_destroy_def)
          have "hw_module_detector_probe env s
                  = Some (ret, s3\<lparr>sysfs_device := None, sysfs_class := None\<rparr>)"
            using mapped rd cc dc cr False dd cd
            by (simp add: hw_module_detector_probe_def d1_def Let_def)
          moreover have "attr_heap s3 = attr_heap s"
            using bad False by (simp add: s2_def s1_def)
          ultimately show ?thesis
            using False f3 True nodev by simp
        qed
      qed
    qed
  qed
qed

text \<open>Removing the driver from a state that a successful probe left.\<close>

lemma remove_after_probe:
  assumes dd: "drvdata s = Some det" "hw_class det = PTR c" "hw_device det = PTR dv"
    and cls: "sysfs_class s = Some c" and l: "dev_live dv s"
    and dc: "map_option dev_class (sysfs_device s) = Some c"
    and v: "slots_valid {..<32} s"
  shows "\<exists>s'. hw_module_detector_remove s = Some (0, s') \<and> hw_detector s' = None
           \<and> sysfs_class s' = None \<and> sysfs_device s' = None
           \<and> module_present_attrs s' = replicate 32 None"
proof -
  from remove_module_sysfs_files_spec [OF v l]
  obtain s1 where rm: "remove_module_sysfs_files (PTR dv) s = Some s1"
    and slots1: "module_present_attrs s1 = replicate 32 None"
    and fr1: "same_frame s s1"
    by blast
  have c1: "sysfs_class s1 = Some c" "map_option dev_class (sysfs_device s1) = Some c"
    using fr1 cls dc by (simp_all add: same_frame_def)
  then obtain d1 where d1: "sysfs_device s1 = Some d1" "dev_class d1 = c"
    by auto
  have destroy: "device_destroy (PTR c) s1 = Some (s1\<lparr>sysfs_device := None\<rparr>)"
    using c1(1) d1 by (simp add: device_destroy_def)
  have cd: "class_destroy (PTR c) (s1\<lparr>sysfs_device := None\<rparr>)
              = Some (s1\<lparr>sysfs_device := None, sysfs_class := None\<rparr>)"
    using c1(1) by (simp add: class_destroy_def)
  have "hw_module_detector_remove s
          = Some (0, s1\<lparr>sysfs_device := None, sysfs_class := None, hw_detector := None\<rparr>)"
    using dd rm destroy cd by (simp add: hw_module_detector_remove_def)
  then show ?thesis
    using slots1 by simp
qed

lemma remove_clears_singleton:
  assumes "hw_module_detector_remove s = Some (r, s')"
  shows "r = 0 \<and> hw_detector s' = None"
  using assms unfolding hw_module_detector_remove_def
  by (auto split: option.splits)


lemma registry_empty_boot [simp]: "registry_empty boot_state"
  by (simp add: registry_empty_def boot_state_def)

lemma registry_empty_device [simp]: "registry_empty device_state"
  by (simp add: registry_empty_def boot_state_def device_state_def)

section \<open>The driver does not write the register\<close>

lemma create_one_iomem:
  assumes "create_one env dev i s = Some (r, s')"
  shows "iomem s' = iomem s"
  using assms
  unfolding create_one_def kzalloc_def kfree_def attr_update_def set_slot_def
    device_create_file_def
  by (auto simp: Let_def split: if_splits option.splits ptr.splits)

lemma create_loop_iomem:
  assumes "create_loop env dev is s = Some (r, s')"
  shows "iomem s' = iomem s"
  using assms
proof (induction "is" arbitrary: s)
  case Nil
  then show ?case by simp
next
  case (Cons i "is")
  from Cons.prems obtain r1 s1 where s1: "create_one env dev i s = Some (r1, s1)"
    by (auto split: option.splits)
  show ?case
  proof (cases "r1 = 0")
    case True
    then have "create_loop env dev is s1 = Some (r, s')"
      using Cons.prems s1 by simp
    then show ?thesis
      using Cons.IH create_one_iomem [OF s1] by simp
  next
    case False
    then show ?thesis
      using Cons.prems s1 create_one_iomem [OF s1] by simp
  qed
qed

lemma device_remove_file_iomem:
  assumes "device_remove_file dev name s = Some s'"
  shows "iomem s' = iomem s"
  using assms unfolding device_remove_file_def
  by (auto split: if_splits option.splits ptr.splits)

lemma cleanup_one_iomem:
  assumes "cleanup_one dev i s = Some s'"
  shows "iomem s' = iomem s"
  using assms device_remove_file_iomem
  unfolding cleanup_one_def kfree_def
  by (fastforce split: if_splits option.splits)

lemma for_each_iomem:
  assumes "\<And>i s s'. body i s = Some s' \<Longrightarrow> iomem s' = iomem s"
    and "for_each body is s = Some s'"
  shows "iomem s' = iomem s"
  using assms(2)
proof (induction "is" arbitrary: s)
  case Nil
  then show ?case by simp
next
  case (Cons i "is")
  from Cons.prems obtain s1 where s1: "body i s = Some s1" "for_each body is s1 = Some s'"
    by (auto split: option.splits)
  then show ?case
    using Cons.IH [OF s1(2)] assms(1) [OF s1(1)] by simp
qed

lemma cleanup_loop_iomem:
  assumes "for_each (cleanup_one dev) is s = Some s'"
  shows "iomem s' = iomem s"
  using cleanup_one_iomem assms by (rule for_each_iomem)

lemma create_module_sysfs_files_iomem:
  assumes "create_module_sysfs_files env dev s = Some (r, s')"
  shows "iomem s' = iomem s"
proof -
  have first: "iomem s1 = iomem s"
    if "device_create_file f dev n a s = Some (r1, s1)" for f n a r1 s1
    using that unfolding device_create_file_def
    by (auto split: if_splits option.splits ptr.splits)
  from assms show ?thesis
    unfolding create_module_sysfs_files_def
    by (auto split: option.splits if_splits prod.splits
          dest!: first create_loop_iomem device_remove_file_iomem cleanup_loop_iomem)
qed

lemma probe_iomem:
  assumes "hw_module_detector_probe env s = Some (0, s')"
  shows "iomem s' = iomem s"
  using assms
  unfolding hw_module_detector_probe_def read_hw_module_reg_def readl_def zeroed_detector_def
    class_create_def device_create_def
  by (auto simp: Let_def IS_ERR_iff
           split: if_splits option.splits sum.splits prod.splits ptr.splits
           dest!: create_module_sysfs_files_iomem)

section \<open>The bitmask queries\<close>

text \<open>
  Claim C4. After a probe that returned 0 and mapped the register at \<open>base\<close>,
  \<open>hw_module_present\<close> answers, for every bit index below 32, whether that bit
  of the register value read during the probe is 1: the answer equals
  \<open>(mask >> bit) & 1 == 1\<close>.
\<close>

theorem present_after_attach:
  assumes "hw_module_detector_probe env s = Some (0, s')"
    and "ioremap_ret env = Inr base"
    and "module_bit < 32"
  shows "hw_module_present s' module_bit
           = (drop_bit (unat module_bit) (iomem s base) AND 1 = 1)"
proof -
  from probe_success [OF assms(1)] assms(2)
  obtain d where d: "hw_detector s' = Some d" "module_bits d = iomem s base"
    by auto
  show ?thesis
    using present_bit [OF d(1) assms(3)] d(2)
    by (simp add: bit_iff_and_drop_bit_eq_1)
qed

theorem present_after_attach_witness:
  "\<exists>s'. hw_module_detector_probe example_env boot_state = Some (0, s')
     \<and> ioremap_ret example_env = Inr 4096 \<and> (3 :: u32) < 32
     \<and> hw_module_present s' 3 = (drop_bit (unat (3 :: u32)) (iomem boot_state 4096) AND 1 = 1)"
proof -
  obtain s' where p: "hw_module_detector_probe example_env boot_state = Some (0, s')"
    using example_probe_returns by blast
  have b: "ioremap_ret example_env = Inr 4096"
    by (simp add: example_env_def)
  have c: "(3 :: u32) < 32"
    by simp
  show ?thesis
    using present_after_attach [OF p b c] p b c by blast
qed

text \<open>
  Claim C5. \<open>hw_module_present\<close> returns false, as an ordinary result, for
  every bit index of 32 or more whatever the state is, and for every bit index
  when no detector is attached.
\<close>

theorem present_false_when_out_of_range_or_detached:
  "(32 \<le> module_bit \<longrightarrow> hw_module_present s module_bit = False)
   \<and> (hw_detector s = None \<longrightarrow> hw_module_present s module_bit = False)"
  by (simp add: hw_module_present_def)

theorem present_false_when_out_of_range_or_detached_witness:
  "(32 :: u32) \<le> 32 \<and> hw_module_present all_ones_state 32 = False
   \<and> hw_detector boot_state = None \<and> hw_module_present boot_state 32 = False"
proof -
  have a: "(32 :: u32) \<le> 32"
    by simp
  have b: "hw_detector boot_state = None"
    by (simp add: boot_state_def)
  show ?thesis
    using present_false_when_out_of_range_or_detached [of 32 all_ones_state]
      present_false_when_out_of_range_or_detached [of 32 boot_state] a b
    by blast
qed

text \<open>
  Claim C7. The mask is the value the register had when the probe read it,
  before any attribute was published: after a probe that returned 0,
  \<open>hw_get_module_mask\<close> returns the register value of the state in which the
  probe started, and it still returns that value after the register contents
  change in any way. The probe leaves the register contents as they were.
\<close>

theorem mask_is_snapshot:
  assumes "hw_module_detector_probe env s = Some (0, s')"
    and "ioremap_ret env = Inr base"
  shows "hw_get_module_mask s' = iomem s base
         \<and> hw_get_module_mask (s'\<lparr>iomem := regs\<rparr>) = iomem s base
         \<and> iomem s' = iomem s"
proof -
  from probe_success [OF assms(1)] assms(2)
  obtain d where d: "hw_detector s' = Some d" "module_bits d = iomem s base"
    by auto
  then show ?thesis
    using probe_iomem [OF assms(1)] by (simp add: hw_get_module_mask_def)
qed

theorem mask_is_snapshot_witness:
  "\<exists>s'. hw_module_detector_probe example_env boot_state = Some (0, s')
     \<and> ioremap_ret example_env = Inr 4096
     \<and> hw_get_module_mask s' = 0x2A
     \<and> hw_get_module_mask (s'\<lparr>iomem := (\<lambda>a. 0)\<rparr>) = 0x2A"
proof -
  obtain s' where p: "hw_module_detector_probe example_env boot_state = Some (0, s')"
    using example_probe_returns by blast
  have b: "ioremap_ret example_env = Inr 4096"
    by (simp add: example_env_def)
  have r: "iomem boot_state 4096 = 0x2A"
    by (simp add: boot_state_def)
  show ?thesis
    using mask_is_snapshot [OF p b, of "\<lambda>a. 0"] p b r by auto
qed

section \<open>Rolling back a failed publish\<close>





section \<open>The singleton follows attach and detach\<close>



section \<open>Detach\<close>

text \<open>
  Claim C8. After a probe that returned 0, remove returns 0 and clears the
  singleton: in the state it leaves, \<open>hw_module_present\<close> is false for every bit
  index and \<open>hw_get_module_mask\<close> is 0. The same holds for the state left by
  any remove that returns.
\<close>

theorem detach_clears_queries:
  assumes "registry_empty s0" and "hw_module_detector_probe env s0 = Some (0, s)"
  shows "(\<exists>s'. hw_module_detector_remove s = Some (0, s') \<and> hw_detector s' = None
            \<and> hw_module_present s' module_bit = False \<and> hw_get_module_mask s' = 0)
         \<and> (\<forall>r st'. hw_module_detector_remove st = Some (r, st')
               \<longrightarrow> hw_module_present st' module_bit = False \<and> hw_get_module_mask st' = 0)"
proof -
  from probe_spec [OF assms(1), of env] assms(2)
  obtain base c dv where "hw_detector s = Some \<lparr>reg_base = PTR base,
        module_bits = iomem s0 base, hw_class = PTR c, hw_device = PTR dv\<rparr>"
    and "drvdata s = hw_detector s" and "sysfs_class s = Some c" and "dev_live dv s"
    and "map_option dev_class (sysfs_device s) = Some c" and "slots_valid {..<32} s"
    by auto
  then obtain s' where "hw_module_detector_remove s = Some (0, s')" "hw_detector s' = None"
    using remove_after_probe [of s _ c dv] by auto
  then have 1: "\<exists>s'. hw_module_detector_remove s = Some (0, s') \<and> hw_detector s' = None
            \<and> hw_module_present s' module_bit = False \<and> hw_get_module_mask s' = 0"
    by (auto simp: hw_module_present_def hw_get_module_mask_def)
  have 2: "hw_module_present st' module_bit = False \<and> hw_get_module_mask st' = 0"
    if "hw_module_detector_remove st = Some (r, st')" for r st'
    using remove_clears_singleton [OF that]
    by (simp add: hw_module_present_def hw_get_module_mask_def)
  from 1 2 show ?thesis by blast
qed

theorem detach_clears_queries_witness:
  "registry_empty boot_state
   \<and> (\<exists>s s'. hw_module_detector_probe example_env boot_state = Some (0, s)
         \<and> hw_module_detector_remove s = Some (0, s') \<and> hw_detector s' = None
         \<and> hw_module_present s' 1 = False \<and> hw_get_module_mask s' = 0)"
proof -
  obtain s where p: "hw_module_detector_probe example_env boot_state = Some (0, s)"
    using example_probe_returns by blast
  from detach_clears_queries [OF registry_empty_boot p, where module_bit = 1 and st = s]
  obtain s' where "hw_module_detector_remove s = Some (0, s')" "hw_detector s' = None"
    "hw_module_present s' 1 = False" "hw_get_module_mask s' = 0"
    by blast
  then show ?thesis
    using p by auto
qed


section \<open>Unpublishing\<close>



section \<open>The slots after a rollback\<close>

text \<open>
  Claim C3 says that a slot is non-empty exactly while its attribute is
  published, and that every slot is empty after the rollback of a failed
  publish. The rollback path does not meet this. With a kernel in which the
  name of attribute 3 cannot be duplicated, the probe of the freshly loaded
  module returns \<^verbatim>\<open>-ENOMEM\<close>: nothing is published any more and the attribute
  of bit 0, at address 3, is freed, yet slot 0 still holds the pointer to it.
  A later probe whose first allocation fails runs the same cleanup over the
  stale slots and uses the freed attributes again.
\<close>

theorem rollback_keeps_stale_pointers:
  "\<exists>s'. hw_module_detector_probe failing_env boot_state = Some (- 12, s')
      \<and> module_present_attrs s' ! 0 = Some 3 \<and> attr_heap s' 3 = None \<and> published s' = []
      \<and> hw_module_detector_probe failing_env_0 s' = None"
proof -
  have "map_option (\<lambda>(r, s). (r, module_present_attrs s ! 0, attr_heap s 3, published s,
            Option.is_none (hw_module_detector_probe failing_env_0 s)))
          (hw_module_detector_probe failing_env boot_state)
        = Some (- 12, Some 3, None, [], True)"
    by code_simp
  then show ?thesis
    by (auto simp: Option.is_none_def)
qed

lemma fmt_d_bit: "fmt_d 1 = ''1''" "fmt_d 0 = ''0''"
  by (simp_all add: fmt_d_def digits_of.simps digit_char_def)

lemma module_bits_show_attached:
  assumes "hw_detector s = Some d"
  shows "module_bits_show s = (11, ''0x'' @ fmt_08x (module_bits d) @ [CHR 0x0A])"
  using assms fmt_08x_spec [of "module_bits d"] by (simp add: module_bits_show_def)

lemma module_present_show_attached:
  assumes d: "hw_detector s = Some d" and i: "i < 32"
    and n: "attr_name attr = Some (bit_attr_name i)"
  shows "module_present_show s attr
           = Some (2, (if bit (module_bits d) i then ''1'' else ''0'') @ [CHR 0x0A])"
proof -
  have u: "unat (of_nat i :: u32) = i"
    using i by (simp add: unat_of_nat)
  then have w: "(of_nat i :: u32) < 32"
    using i by (simp add: word_less_nat_alt)
  have p: "hw_module_present s (of_nat i) = bit (module_bits d) i"
    using present_bit [OF d w] u by simp
  show ?thesis
    using d n bit_attr_name_parse [OF i] i p
    by (simp add: module_present_show_def fmt_d_bit)
qed

section \<open>Reading the published attributes\<close>

text \<open>
  Claim C6. After a probe that returned 0 and read the mask \<open>m\<close> from the
  register, a read of the file \<^verbatim>\<open>module_bits\<close> returns 11 characters:
  \<^verbatim>\<open>0x\<close>, then 8 lowercase hexadecimal digits whose value is \<open>m\<close>, then a
  newline. For every \<open>i\<close> below 32 a read of the file of bit \<open>i\<close>, whose
  handler parses \<open>i\<close> back out of the attribute's name, returns \<^verbatim>\<open>1\<close> and
  a newline when bit \<open>i\<close> of \<open>m\<close> is set, \<^verbatim>\<open>0\<close> and a newline otherwise.
\<close>

theorem attribute_reads_after_attach:
  assumes "registry_empty s0" and "hw_module_detector_probe env s0 = Some (0, s)"
    and "ioremap_ret env = Inr base" and "i < 32"
  shows "\<exists>ds. sysfs_read s ''module_bits'' = Some (11, ''0x'' @ ds @ [CHR 0x0A])
           \<and> length ds = 8 \<and> set ds \<subseteq> set ''0123456789abcdef''
           \<and> hex_value ds = unat (iomem s0 base)
           \<and> sysfs_read s (bit_attr_name i)
               = Some (2, (if bit (iomem s0 base) i then ''1'' else ''0'') @ [CHR 0x0A])"
proof -
  from probe_spec [OF assms(1), of env] assms(2,3)
  obtain c dv where det: "hw_detector s = Some \<lparr>reg_base = PTR base,
        module_bits = iomem s0 base, hw_class = PTR c, hw_device = PTR dv\<rparr>"
    and agg: "(''module_bits'', Dev_attr_module_bits) \<in> set (published s)"
    and dist: "distinct (map fst (published s))"
    and bits: "\<forall>i<32. \<exists>a. module_present_attrs s ! i = Some a
                 \<and> attr_heap s a =
                     Some \<lparr>attr_name = Some (bit_attr_name i), attr_mode = 292,
                           attr_show = Some Module_present_show\<rparr>
                 \<and> (bit_attr_name i, Dyn_attr a) \<in> set (published s)"
    and live: "dev_live dv s"
    by auto
  from live obtain d where d: "sysfs_device s = Some d"
    unfolding dev_live_def by blast
  then have pub: "published s = dev_files d"
    by (simp add: published_def)
  have "map_of (dev_files d) ''module_bits'' = Some Dev_attr_module_bits"
    using agg dist by (simp add: pub)
  then have 1: "sysfs_read s ''module_bits''
      = Some (11, ''0x'' @ fmt_08x (iomem s0 base) @ [CHR 0x0A])"
    using d module_bits_show_attached [OF det] by (simp add: sysfs_read_def dev_attr_show_def)
  from bits assms(4) obtain a where a: "attr_heap s a =
                     Some \<lparr>attr_name = Some (bit_attr_name i), attr_mode = 292,
                           attr_show = Some Module_present_show\<rparr>"
    "(bit_attr_name i, Dyn_attr a) \<in> set (published s)"
    by blast
  have "map_of (dev_files d) (bit_attr_name i) = Some (Dyn_attr a)"
    using a(2) dist by (simp add: pub)
  then have 2: "sysfs_read s (bit_attr_name i)
      = Some (2, (if bit (iomem s0 base) i then ''1'' else ''0'') @ [CHR 0x0A])"
    using d a(1) module_present_show_attached [OF det assms(4), of
        "\<lparr>attr_name = Some (bit_attr_name i), attr_mode = 292,
          attr_show = Some Module_present_show\<rparr>"]
    by (simp add: sysfs_read_def dev_attr_show_def)
  show ?thesis
    using 1 2 fmt_08x_spec [of "iomem s0 base"] by blast
qed

theorem attribute_reads_after_attach_witness:
  "registry_empty boot_state \<and> ioremap_ret example_env = Inr 4096 \<and> (1 :: nat) < 32
   \<and> bit_attr_name 1 = ''module_1''
   \<and> (\<exists>s ds. hw_module_detector_probe example_env boot_state = Some (0, s)
         \<and> sysfs_read s ''module_bits'' = Some (11, ''0x'' @ ds @ [CHR 0x0A])
         \<and> length ds = 8 \<and> set ds \<subseteq> set ''0123456789abcdef'' \<and> hex_value ds = 42
         \<and> sysfs_read s ''module_1'' = Some (2, ''1'' @ [CHR 0x0A]))"
proof -
  obtain s where p: "hw_module_detector_probe example_env boot_state = Some (0, s)"
    using example_probe_returns by blast
  have b: "ioremap_ret example_env = Inr 4096"
    by (simp add: example_env_def)
  have m: "iomem boot_state 4096 = 0x2A"
    by (simp add: boot_state_def)
  have n: "bit_attr_name 1 = ''module_1''"
    by (simp add: bit_attr_name_def snprintf_def fmt_d_def digits_of.simps digit_char_def)
  have v: "bit (0x2A :: u32) 1" "unat (0x2A :: u32) = 42"
    by simp_all
  from attribute_reads_after_attach [OF registry_empty_boot p b, of 1]
  show ?thesis
    using p b n m v by auto
qed

section \<open>Reads that are refused\<close>

text \<open>
  Claim C10. With no detector attached both read handlers return
  \<^verbatim>\<open>-EINVAL\<close> and write nothing. \<open>module_present_show\<close> also returns
  \<^verbatim>\<open>-EINVAL\<close>, whatever the state, when the text after the first seven
  characters of the attribute's name is not accepted by \<^verbatim>\<open>kstrtouint\<close> or
  is a number of 32 or more.
\<close>

theorem show_handlers_refuse:
  "(hw_detector s = None \<longrightarrow>
      module_bits_show s = (- 22, []) \<and> module_present_show s attr = Some (- 22, []))
   \<and> (attr_name attr = Some name \<and> 7 \<le> length name
        \<and> (\<forall>b. kstrtouint (drop 7 name) = Inr b \<longrightarrow> 32 \<le> b)
      \<longrightarrow> module_present_show s attr = Some (- 22, []))"
  by (cases "kstrtouint (drop 7 name)")
    (auto simp: module_bits_show_def module_present_show_def)

theorem show_handlers_refuse_witness:
  "hw_detector boot_state = None
   \<and> module_bits_show boot_state = (- 22, [])
   \<and> module_present_show boot_state zeroed_attribute = Some (- 22, [])
   \<and> kstrtouint (drop 7 ''module_32'') = Inr 32
   \<and> module_present_show all_ones_state
        \<lparr>attr_name = Some ''module_32'', attr_mode = 292, attr_show = Some Module_present_show\<rparr>
       = Some (- 22, [])
   \<and> kstrtouint (drop 7 ''module_x'') = Inl EINVAL
   \<and> module_present_show all_ones_state
        \<lparr>attr_name = Some ''module_x'', attr_mode = 292, attr_show = Some Module_present_show\<rparr>
       = Some (- 22, [])"
proof -
  have a: "hw_detector boot_state = None"
    by (simp add: boot_state_def)
  have b: "kstrtouint (drop 7 ''module_32'') = Inr 32"
    by (simp add: kstrtouint_def kstrtoull_def is_dec_digit_def dec_val_def)
  have c: "kstrtouint (drop 7 ''module_x'') = Inl EINVAL"
    by (simp add: kstrtouint_def kstrtoull_def is_dec_digit_def dec_val_def)
  show ?thesis
    using show_handlers_refuse [of boot_state zeroed_attribute]
      show_handlers_refuse [of all_ones_state
        "\<lparr>attr_name = Some ''module_32'', attr_mode = 292, attr_show = Some Module_present_show\<rparr>"
        "''module_32''"]
      show_handlers_refuse [of all_ones_state
        "\<lparr>attr_name = Some ''module_x'', attr_mode = 292, attr_show = Some Module_present_show\<rparr>"
        "''module_x''"]
      a b c
    by simp
qed

end
